theory Spec2Isabelle
  imports Main
begin

section \<open>JavaScript strings\<close>

text \<open>
  A JavaScript string is a sequence of UTF-16 code units. It is modelled as a HOL
  \<open>string\<close>, one \<open>char\<close> per code unit, for the code units below 256. The only
  character of the sources outside that range is the box-drawing rule U+2550 of the
  fixed banners; it is written \<open>=\<close> here.
\<close>

definition js_or :: "string \<Rightarrow> string \<Rightarrow> string" where
  \<comment> \<open>\<open>a || b\<close> on strings: the empty string (like \<open>undefined\<close>) is falsy\<close>
  "js_or a b = (if a = [] then b else a)"

definition digit_char :: "nat \<Rightarrow> char" where
  "digit_char d = ''0123456789'' ! d"

function show_nat :: "nat \<Rightarrow> string" where
  \<comment> \<open>\<open>`${n}`\<close> for a non-negative integer\<close>
  "show_nat n = (if n < 10 then [digit_char n] else show_nat (n div 10) @ [digit_char (n mod 10)])"
  by pat_completeness auto
termination
  by (relation "measure (\<lambda>n. n)") auto

declare show_nat.simps [simp del]

definition is_space :: "char \<Rightarrow> bool" where
  \<comment> \<open>the regular expression class \<open>\s\<close>, also what \<open>trim\<close> removes\<close>
  "is_space c = (c \<in> set [CHR 0x09, CHR 0x0A, CHR 0x0B, CHR 0x0C, CHR 0x0D, CHR 0x20, CHR 0xA0])"

definition upper_chars :: string where
  "upper_chars = ''ABCDEFGHIJKLMNOPQRSTUVWXYZ'' @
     [CHR 0xC0, CHR 0xC1, CHR 0xC2, CHR 0xC3, CHR 0xC4, CHR 0xC5, CHR 0xC6, CHR 0xC7, 
      CHR 0xC8, CHR 0xC9, CHR 0xCA, CHR 0xCB, CHR 0xCC, CHR 0xCD, CHR 0xCE, CHR 0xCF, 
      CHR 0xD0, CHR 0xD1, CHR 0xD2, CHR 0xD3, CHR 0xD4, CHR 0xD5, CHR 0xD6, CHR 0xD8, 
      CHR 0xD9, CHR 0xDA, CHR 0xDB, CHR 0xDC, CHR 0xDD, CHR 0xDE]"

definition lower_chars :: string where
  "lower_chars = ''abcdefghijklmnopqrstuvwxyz'' @
     [CHR 0xE0, CHR 0xE1, CHR 0xE2, CHR 0xE3, CHR 0xE4, CHR 0xE5, CHR 0xE6, CHR 0xE7, 
      CHR 0xE8, CHR 0xE9, CHR 0xEA, CHR 0xEB, CHR 0xEC, CHR 0xED, CHR 0xEE, CHR 0xEF, 
      CHR 0xF0, CHR 0xF1, CHR 0xF2, CHR 0xF3, CHR 0xF4, CHR 0xF5, CHR 0xF6, CHR 0xF8, 
      CHR 0xF9, CHR 0xFA, CHR 0xFB, CHR 0xFC, CHR 0xFD, CHR 0xFE]"

definition lower_char :: "char \<Rightarrow> char" where
  \<comment> \<open>the letters with a lower case below 256: A-Z and U+00C0-U+00DE without U+00D7\<close>
  "lower_char c = (case map_of (zip upper_chars lower_chars) c of None \<Rightarrow> c | Some d \<Rightarrow> d)"

definition toLowerCase :: "string \<Rightarrow> string" where
  "toLowerCase s = map lower_char s"

fun startsWith :: "string \<Rightarrow> string \<Rightarrow> bool" where
  "startsWith s [] = True"
| "startsWith [] (p # ps) = False"
| "startsWith (c # cs) (p # ps) = (c = p \<and> startsWith cs ps)"

fun js_includes :: "string \<Rightarrow> string \<Rightarrow> bool" where
  \<comment> \<open>\<open>s.includes(p)\<close>: \<open>p\<close> occurs in \<open>s\<close> as a substring\<close>
  "js_includes [] p = (p = [])"
| "js_includes (c # cs) p = (startsWith (c # cs) p \<or> js_includes cs p)"

definition trim :: "string \<Rightarrow> string" where
  "trim s = rev (dropWhile is_space (rev (dropWhile is_space s)))"

fun split_where :: "(char \<Rightarrow> bool) \<Rightarrow> string \<Rightarrow> string list" where
  \<comment> \<open>\<open>s.split(sep)\<close> for a separator that matches exactly one character\<close>
  "split_where P [] = [[]]"
| "split_where P (c # cs) =
     (if P c then [] # split_where P cs
      else (case split_where P cs of [] \<Rightarrow> [[c]] | t # ts \<Rightarrow> (c # t) # ts))"

fun split_runs :: "bool \<Rightarrow> string \<Rightarrow> string \<Rightarrow> string list" where
  \<comment> \<open>\<open>insep\<close>: the previous character was a separator; \<open>cur\<close>: the token read so far, reversed\<close>
  "split_runs insep cur [] = [rev cur]"
| "split_runs insep cur (c # cs) =
     (if is_space c
      then (if insep then split_runs True cur cs else rev cur # split_runs True [] cs)
      else split_runs False (c # cur) cs)"

definition split_ws :: "string \<Rightarrow> string list" where
  \<comment> \<open>\<open>s.split(/\s+/)\<close>: a run of white space is one separator\<close>
  "split_ws s = split_runs False [] s"

fun join :: "string \<Rightarrow> string list \<Rightarrow> string" where
  \<comment> \<open>\<open>xs.join(sep)\<close>\<close>
  "join sep [] = []"
| "join sep [x] = x"
| "join sep (x # y # ys) = x @ sep @ join sep (y # ys)"

fun find_lit :: "string \<Rightarrow> string \<Rightarrow> (string \<times> string) option" where
  \<comment> \<open>the first occurrence of a literal: the text before it and the text after it\<close>
  "find_lit p [] = (if p = [] then Some ([], []) else None)"
| "find_lit p (c # cs) =
     (if startsWith (c # cs) p then Some ([], drop (length p) (c # cs))
      else map_option (\<lambda>(b, a). (c # b, a)) (find_lit p cs))"

fun expand_replacement :: "string \<Rightarrow> string \<Rightarrow> string \<Rightarrow> string \<Rightarrow> string" where
  \<comment> \<open>the replacement patterns of \<open>String.prototype.replace\<close> for a pattern without
      capture groups: \<open>$$\<close>, \<open>$&\<close>, \<open>$`\<close> and \<open>$'\<close>\<close>
  "expand_replacement (CHR ''$'' # c # r) m b a =
     (if c = CHR ''$'' then CHR ''$'' # expand_replacement r m b a
      else if c = CHR ''&'' then m @ expand_replacement r m b a
      else if c = CHR 0x60 then b @ expand_replacement r m b a
      else if c = CHR 0x27 then a @ expand_replacement r m b a
      else CHR ''$'' # expand_replacement (c # r) m b a)"
| "expand_replacement (c # r) m b a = c # expand_replacement r m b a"
| "expand_replacement [] m b a = []"

definition replace_lit :: "string \<Rightarrow> string \<Rightarrow> string \<Rightarrow> string" where
  \<comment> \<open>\<open>s.replace(/LIT/, r)\<close> and \<open>s.replace('LIT', r)\<close>: the first occurrence only\<close>
  "replace_lit lit r s =
     (case find_lit lit s of
        None \<Rightarrow> s
      | Some (b, a) \<Rightarrow> b @ expand_replacement r lit b a @ a)"

definition replace_section :: "string \<Rightarrow> string \<Rightarrow> string \<Rightarrow> string" where
  \<comment> \<open>\<open>s.replace(/LIT[^#]*/, r)\<close>: the literal and the longest run without \<open>#\<close> after it\<close>
  "replace_section lit r s =
     (case find_lit lit s of
        None \<Rightarrow> s
      | Some (b, a) \<Rightarrow>
          b @ expand_replacement r (lit @ takeWhile (\<lambda>c. c \<noteq> CHR ''#'') a) b
                (dropWhile (\<lambda>c. c \<noteq> CHR ''#'') a)
            @ dropWhile (\<lambda>c. c \<noteq> CHR ''#'') a)"

section \<open>Errors, files and effects\<close>

datatype error =
    SystemError string  \<comment> \<open>a file system error of \<open>fs/promises\<close>\<close>
  | SyntaxError string  \<comment> \<open>\<open>JSON.parse\<close> on malformed text\<close>
  | TypeError string    \<comment> \<open>calling \<open>null\<close>, reading a property of \<open>undefined\<close>\<close>
  | Failure string      \<comment> \<open>an error thrown by a collaborator\<close>

fun message :: "error \<Rightarrow> string" where
  "message (SystemError m) = m"
| "message (SyntaxError m) = m"
| "message (TypeError m) = m"
| "message (Failure m) = m"

datatype 'a disk_file = Missing | Unreadable | Holds 'a

datatype 'a json_text = Malformed | Json 'a

definition readFile :: "'a disk_file \<Rightarrow> error + 'a" where
  "readFile f =
     (case f of
        Missing \<Rightarrow> Inl (SystemError ''ENOENT: no such file or directory'')
      | Unreadable \<Rightarrow> Inl (SystemError ''EACCES: permission denied'')
      | Holds x \<Rightarrow> Inr x)"

definition JSON_parse :: "'a json_text \<Rightarrow> error + 'a" where
  "JSON_parse t =
     (case t of
        Malformed \<Rightarrow> Inl (SyntaxError ''Unexpected end of JSON input'')
      | Json v \<Rightarrow> Inr v)"

definition JSON_stringify :: "'a \<Rightarrow> 'a json_text" where
  "JSON_stringify v = Json v"

subsection \<open>The records of the conversation\<close>

text \<open>
  The fields keep the names of the JavaScript properties, except where a name is taken
  in Isabelle or by another record: \<open>context_of\<close> is \<open>context\<close>, \<open>id_of\<close> is
  \<open>id\<close>, \<open>range_of\<close> is \<open>range\<close>, \<open>summary_text\<close>, \<open>summary_reasoning\<close> and
  \<open>summary_ts\<close> are \<open>text\<close>, \<open>reasoning\<close> and \<open>ts\<close> of a summary entry,
  \<open>stdout_text\<close> and \<open>error_text\<close> are \<open>output\<close> and \<open>error\<close> of an execution
  result, \<open>tr_output\<close>, \<open>tr_exitCode\<close> and \<open>tr_error\<close> are \<open>output\<close>, \<open>exitCode\<close>
  and \<open>error\<close> of a terminal result, \<open>sr_summary\<close> and \<open>sr_reasoning\<close> are the fields
  of the summarizer's answer, and \<open>plan_missingContext\<close> is \<open>missingContext\<close> of a plan.
  Interaction ids and the counter are JavaScript numbers that only count up from 0; they
  are natural numbers here.
\<close>

record terminal_result =
  executed :: bool
  tr_output :: string
  tr_exitCode :: "int option"
  tr_error :: "string option"
  approved :: bool

text \<open>
  A turn response is a flat object with the fields of every branch (the schema
  \<open>baseAgentExtendedResponseSchema\<close> is strict: every field is present). Field
  \<open>terminalResult\<close> is the one \<open>orchestrate\<close> adds; \<open>summary\<close> is read by the memory
  system only and is empty when absent.
\<close>

record agent_response =
  choice :: string
  response :: string
  code :: string
  language :: string
  codeExplanation :: string
  summary :: string
  missingContext :: "string list"
  terminalCommand :: string
  commandReasoning :: string
  requiresApproval :: bool
  continue :: bool
  terminalResult :: "terminal_result option"

record request =
  query :: string
  context_of :: "string option"

record interaction =
  userRequest :: request
  aiResponse :: agent_response
  ts :: string
  id_of :: nat

record id_range =
  startId :: nat
  endId :: nat
  startTs :: string
  endTs :: string

record summary_record =
  range_of :: id_range
  summary_text :: string
  summary_reasoning :: string
  summary_ts :: string

record memory =
  interactions :: "interaction list"
  summaries :: "summary_record list"
  count :: nat

record summarize_result =
  sr_summary :: string
  sr_reasoning :: string

record landscape_result =
  overallIntent :: string
  suggestedApproach :: string
  priority :: string

record plan_step =
  stepDescription :: string
  reasoning :: string

record plan_result =
  steps :: "plan_step list"
  plan_missingContext :: "string list"

record exec_result =
  stdout_text :: string
  exitCode :: int
  error_text :: "string option"

subsection \<open>The world and the collaborators\<close>

datatype llm_call =
    BaseCall string string           \<comment> \<open>the query and the context string of a turn\<close>
  | LandscapeCall string             \<comment> \<open>the analysis prompt\<close>
  | PlanCall string                  \<comment> \<open>the planning prompt\<close>
  | SummarizeCall "interaction list" \<comment> \<open>the interactions rendered into the prompt\<close>

record world =
  memory_file :: "memory json_text disk_file"
  notes_file :: "string disk_file"
  clock :: nat
  llm_log :: "llm_call list"
  exec_log :: "string list"
  approval_log :: "(string \<times> string) list"

text \<open>
  The collaborators are parameters. Each one is indexed by the number of calls made so
  far, so that two calls with the same arguments may answer differently. \<open>iso n\<close> is
  \<open>new Date().toISOString()\<close> at the \<open>n\<close>-th reading of the clock. A write to a file
  that is not writable fails and leaves the file as it was.
\<close>

record env =
  iso :: "nat \<Rightarrow> string"
  memory_writable :: bool
  notes_writable :: bool
  summarizeAgent :: "nat \<Rightarrow> interaction list \<Rightarrow> error + summarize_result"
  landscapeAgent :: "nat \<Rightarrow> string \<Rightarrow> error + landscape_result"
  planStepsAgent :: "nat \<Rightarrow> string \<Rightarrow> error + plan_result"
  baseAgent :: "nat \<Rightarrow> string \<Rightarrow> string \<Rightarrow> error + agent_response"
  executeCommand :: "nat \<Rightarrow> string \<Rightarrow> error + exec_result"

type_synonym 'a io = "world \<Rightarrow> (error + 'a) \<times> world"

definition ret :: "'a \<Rightarrow> 'a io" where
  "ret x w = (Inr x, w)"

definition throw :: "error \<Rightarrow> 'a io" where
  "throw e w = (Inl e, w)"

definition io_bind :: "'a io \<Rightarrow> ('a \<Rightarrow> 'b io) \<Rightarrow> 'b io" where
  \<comment> \<open>\<open>const x = await m; f(x)\<close>: an error of \<open>m\<close> skips \<open>f\<close>\<close>
  "io_bind m f w = (case m w of (Inl e, w') \<Rightarrow> (Inl e, w') | (Inr x, w') \<Rightarrow> f x w')"

definition try_catch :: "'a io \<Rightarrow> (error \<Rightarrow> 'a io) \<Rightarrow> 'a io" where
  \<comment> \<open>\<open>try { m } catch (error) { h(error) }\<close>\<close>
  "try_catch m h w = (case m w of (Inl e, w') \<Rightarrow> h e w' | (Inr x, w') \<Rightarrow> (Inr x, w'))"

definition lift :: "error + 'a \<Rightarrow> 'a io" where
  "lift r w = (r, w)"

fun for_each :: "'a list \<Rightarrow> ('a \<Rightarrow> unit io) \<Rightarrow> unit io" where
  \<comment> \<open>\<open>for (const x of xs) { await f(x) }\<close>\<close>
  "for_each [] f = ret ()"
| "for_each (x # xs) f = io_bind (f x) (\<lambda>_. for_each xs f)"

definition now_iso :: "env \<Rightarrow> string io" where
  \<comment> \<open>\<open>new Date().toISOString()\<close>\<close>
  "now_iso env w = (Inr (iso env (clock w)), w\<lparr>clock := clock w + 1\<rparr>)"

section \<open>lib/memorySystem.js\<close>

definition MAX_INTERACTIONS :: nat where
  "MAX_INTERACTIONS = 21"

definition MAX_SUMMARIES :: nat where
  "MAX_SUMMARIES = 3"

definition emptyMemory :: memory where
  "emptyMemory = \<lparr>interactions = [], summaries = [], count = 0\<rparr>"

definition loadMemory :: "memory io" where
  "loadMemory =
     try_catch
       (io_bind (\<lambda>w. (readFile (memory_file w), w)) (\<lambda>data. lift (JSON_parse data)))
       (\<lambda>error. ret emptyMemory)"

definition saveMemory :: "env \<Rightarrow> memory \<Rightarrow> unit io" where
  \<comment> \<open>\<open>fs.writeFile(getMemoryFile(), JSON.stringify(memory, null, 2), 'utf-8')\<close>\<close>
  "saveMemory env m w =
     (if memory_writable env then (Inr (), w\<lparr>memory_file := Holds (JSON_stringify m)\<rparr>)
      else (Inl (SystemError ''EACCES: permission denied''), w))"

definition querySummarize :: "env \<Rightarrow> interaction list \<Rightarrow> summarize_result io" where
  \<comment> \<open>\<open>queryOpenAI\<close> with \<open>summarizeAgentResponseSchema\<close>; the prompt is the rendering of
      \<open>toSummarize\<close>, which is what the log keeps\<close>
  "querySummarize env toSummarize w =
     (summarizeAgent env (length (llm_log w)) toSummarize,
      w\<lparr>llm_log := llm_log w @ [SummarizeCall toSummarize]\<rparr>)"

definition summarizeAndShift :: "env \<Rightarrow> memory \<Rightarrow> memory io" where
  "summarizeAndShift env m =
     (let toSummarize = drop 1 (interactions m) in
      io_bind
        (try_catch
           (io_bind (querySummarize env toSummarize) (\<lambda>summaryResult.
            if toSummarize = []
            then throw (TypeError ''Cannot read properties of undefined (reading id)'')
            else
            io_bind (now_iso env) (\<lambda>now.
            let summary =
                  \<lparr>range_of =
                     \<lparr>startId = id_of (hd toSummarize),
                      endId = id_of (last toSummarize),
                      startTs = ts (hd toSummarize),
                      endTs = ts (last toSummarize)\<rparr>,
                   summary_text = sr_summary summaryResult,
                   summary_reasoning = sr_reasoning summaryResult,
                   summary_ts = now\<rparr>;
                m1 = m\<lparr>summaries := summaries m @ [summary]\<rparr>;
                m2 = (if length (summaries m1) > MAX_SUMMARIES
                      then m1\<lparr>summaries := drop 1 (summaries m1)\<rparr> else m1)
            in ret m2)))
           (\<lambda>error. ret m))
        (\<lambda>m3. ret (m3\<lparr>interactions := drop 1 (interactions m3)\<rparr>)))"

definition addInteraction :: "env \<Rightarrow> request \<Rightarrow> agent_response \<Rightarrow> interaction io" where
  "addInteraction env req resp =
     io_bind loadMemory (\<lambda>m.
     io_bind (now_iso env) (\<lambda>now.
     let interaction = \<lparr>userRequest = req, aiResponse = resp, ts = now, id_of = count m + 1\<rparr>;
         m1 = m\<lparr>interactions := interactions m @ [interaction]\<rparr>;
         m2 = m1\<lparr>count := count m1 + 1\<rparr>
     in
     io_bind (if length (interactions m2) > MAX_INTERACTIONS
              then summarizeAndShift env m2 else ret m2) (\<lambda>m3.
     io_bind (saveMemory env m3) (\<lambda>_.
     ret interaction))))"

definition clearMemory :: "env \<Rightarrow> memory io" where
  "clearMemory env = io_bind (saveMemory env emptyMemory) (\<lambda>_. ret emptyMemory)"

definition render_summary :: "nat \<times> summary_record \<Rightarrow> string" where
  \<comment> \<open>the body of \<open>memory.summaries.forEach((summary, i) => ...)\<close>\<close>
  "render_summary p =
     (case p of (i, s) \<Rightarrow>
        ''Summary '' @ show_nat (i + 1) @ '' (Interactions '' @
          show_nat (startId (range_of s)) @ ''-'' @ show_nat (endId (range_of s)) @
          '', '' @ startTs (range_of s) @ '' to '' @ endTs (range_of s) @ ''):\<newline>'' @
        summary_text s @ ''\<newline>\<newline>'')"

definition render_interaction :: "interaction \<Rightarrow> string" where
  \<comment> \<open>the body of \<open>memory.interactions.forEach(interaction => ...)\<close>\<close>
  "render_interaction i =
     (let userQuery = js_or (query (userRequest i)) ''Request data'';
          aiChoice = js_or (choice (aiResponse i)) ''response'';
          aiContent = js_or (response (aiResponse i))
                        (js_or (code (aiResponse i))
                           (js_or (summary (aiResponse i)) ''Response data''))
      in ''['' @ ts i @ ''] Interaction '' @ show_nat (id_of i) @ '':\<newline>'' @
         ''User Query: '' @ userQuery @ ''\<newline>'' @
         ''AI Response Type: '' @ aiChoice @ ''\<newline>'' @
         ''AI Content: '' @ take 200 aiContent @
           (if length aiContent > 200 then ''...'' else []) @ ''\<newline>\<newline>'')"

definition getMemoryContextString :: "string io" where
  \<comment> \<open>the second banner is a single-quoted JavaScript string: its \<open>${...}\<close> is literal text\<close>
  "getMemoryContextString =
     io_bind loadMemory (\<lambda>m.
     let context0 = [];
         context1 =
           (if length (summaries m) > 0
            then context0 @ ''=== CONVERSATION HISTORY (SUMMARIES) ===\<newline>\<newline>'' @
                 concat (map render_summary (zip [0 ..< length (summaries m)] (summaries m)))
            else context0);
         context2 =
           (if length (interactions m) > 0
            then context1 @
                 ''=== RECENT INTERACTIONS (Last ${memory.interactions.length}) ===\<newline>\<newline>'' @
                 concat (map render_interaction (interactions m))
            else context1)
     in ret (trim context2))"

section \<open>lib/notesManager.js\<close>

definition notes_template :: "string \<Rightarrow> string" where
  \<comment> \<open>the empty structure of \<open>loadNotes\<close> and \<open>clearNotes\<close>, for a session start time\<close>
  "notes_template now =
     ''# Agent Notes\<newline>\<newline>## Current Task\<newline>None\<newline>\<newline>## Plan\<newline>No active plan\<newline>\<newline>## Context\<newline>- Session started: ''
     @ now @
     ''\<newline>\<newline>## Completed\<newline>- Nothing yet\<newline>\<newline>## Blockers\<newline>None\<newline>''"

definition loadNotes :: "env \<Rightarrow> string io" where
  "loadNotes env =
     try_catch
       (\<lambda>w. (readFile (notes_file w), w))
       (\<lambda>error. io_bind (now_iso env) (\<lambda>now. ret (notes_template now)))"

definition saveNotes :: "env \<Rightarrow> string \<Rightarrow> unit io" where
  \<comment> \<open>\<open>fs.writeFile(getNotesFile(), content, 'utf-8')\<close>\<close>
  "saveNotes env content w =
     (if notes_writable env then (Inr (), w\<lparr>notes_file := Holds content\<rparr>)
      else (Inl (SystemError ''EACCES: permission denied''), w))"

definition updateCurrentTask :: "env \<Rightarrow> string \<Rightarrow> unit io" where
  "updateCurrentTask env taskDescription =
     io_bind (loadNotes env) (\<lambda>notes.
     let updated = replace_section ''## Current Task\<newline>''
                     (''## Current Task\<newline>'' @ taskDescription @ ''\<newline>\<newline>'') notes
     in saveNotes env updated)"

definition plan_line :: "nat \<times> plan_step \<Rightarrow> string" where
  \<comment> \<open>one checklist line of \<open>setPlan\<close>, for the index \<open>idx\<close> and the step\<close>
  "plan_line p =
     (case p of (idx, step) \<Rightarrow>
        ''- [ ] '' @ show_nat (idx + 1) @ ''. '' @ stepDescription step @
        (if reasoning step \<noteq> [] then '' ('' @ reasoning step @ '')'' else []))"

definition setPlan :: "env \<Rightarrow> plan_step list \<Rightarrow> string io" where
  "setPlan env steps_list =
     io_bind (loadNotes env) (\<lambda>notes.
     let planText = join ''\<newline>'' (map plan_line (zip [0 ..< length steps_list] steps_list));
         updated = replace_section ''## Plan\<newline>''
                     (''## Plan\<newline>'' @ planText @ ''\<newline>\<newline>'') notes
     in io_bind (saveNotes env updated) (\<lambda>_. ret updated))"

fun complete_lines :: "nat \<Rightarrow> bool \<Rightarrow> nat \<Rightarrow> string list \<Rightarrow> string list" where
  \<comment> \<open>the \<open>lines.map\<close> of \<open>completeStep\<close>, with its two counters \<open>inPlanSection\<close> and
      \<open>stepCount\<close> passed along\<close>
  "complete_lines stepNumber inPlanSection stepCount [] = []"
| "complete_lines stepNumber inPlanSection stepCount (line # rest) =
     (if startsWith line ''## Plan''
      then line # complete_lines stepNumber True stepCount rest
      else if startsWith line ''##''
      then line # complete_lines stepNumber False stepCount rest
      else if inPlanSection \<and> startsWith (trim line) ''- [''
      then (if stepCount + 1 = stepNumber then replace_lit ''- [ ]'' ''- [x]'' line else line)
           # complete_lines stepNumber inPlanSection (stepCount + 1) rest
      else line # complete_lines stepNumber inPlanSection stepCount rest)"

definition completeStep :: "env \<Rightarrow> nat \<Rightarrow> string io" where
  "completeStep env stepNumber =
     io_bind (loadNotes env) (\<lambda>notes.
     let lines = split_where (\<lambda>c. c = CHR 0x0A) notes;
         updated = join ''\<newline>'' (complete_lines stepNumber False 0 lines)
     in io_bind (saveNotes env updated) (\<lambda>_. ret updated))"

definition addContext :: "env \<Rightarrow> string \<Rightarrow> unit io" where
  "addContext env contextItem =
     io_bind (loadNotes env) (\<lambda>notes.
     io_bind (now_iso env) (\<lambda>timestamp.
     let contextLine = ''- ['' @ timestamp @ ''] '' @ contextItem;
         updated = replace_lit ''## Context\<newline>''
                     (''## Context\<newline>'' @ contextLine @ ''\<newline>'') notes
     in saveNotes env updated))"

definition addCompleted :: "env \<Rightarrow> string \<Rightarrow> unit io" where
  "addCompleted env item =
     io_bind (loadNotes env) (\<lambda>notes.
     io_bind (now_iso env) (\<lambda>timestamp.
     let completedLine = ''- ['' @ timestamp @ ''] '' @ item;
         updated = replace_lit ''## Completed\<newline>''
                     (''## Completed\<newline>'' @ completedLine @ ''\<newline>'') notes
     in saveNotes env updated))"

definition addBlocker :: "env \<Rightarrow> string \<Rightarrow> unit io" where
  "addBlocker env blocker =
     io_bind (loadNotes env) (\<lambda>notes.
     io_bind (now_iso env) (\<lambda>timestamp.
     let blockerLine = ''- ['' @ timestamp @ ''] '' @ blocker;
         updated = replace_lit ''## Blockers\<newline>''
                     (''## Blockers\<newline>'' @ blockerLine @ ''\<newline>'') notes
     in saveNotes env updated))"

definition clearNotes :: "env \<Rightarrow> string io" where
  "clearNotes env =
     io_bind (now_iso env) (\<lambda>now.
     let freshNotes = notes_template now
     in io_bind (saveNotes env freshNotes) (\<lambda>_. ret freshNotes))"

section \<open>lib/agentOrchestrator.js\<close>

definition MAX_CONTINUE_ITERATIONS :: nat where
  "MAX_CONTINUE_ITERATIONS = 5"

definition MAX_DENIAL_RETRIES :: nat where
  "MAX_DENIAL_RETRIES = 2"

text \<open>
  The options of \<open>orchestrate\<close>. A callback that is not supplied is \<open>null\<close>, here
  \<open>None\<close>. The approval callback is indexed by the number of approvals asked so far
  and may throw; an observer callback returns the error it throws, if any.
\<close>

record options =
  userContext :: "string option"
  askApproval :: "(nat \<Rightarrow> string \<Rightarrow> string \<Rightarrow> error + bool) option"
  onThinking :: "(nat \<Rightarrow> error option) option"
  onResponse :: "(agent_response \<Rightarrow> nat \<Rightarrow> error option) option"
  skipLandscape :: bool

text \<open>
  The object \<open>agentContext\<close>: \<open>ctx_memory\<close>, \<open>ctx_notes\<close>, \<open>ctx_userContext\<close>,
  \<open>ctx_landscape\<close>, \<open>ctx_plan\<close> and \<open>ctx_iteration\<close> are its properties \<open>memory\<close>,
  \<open>notes\<close>, \<open>userContext\<close>, \<open>landscape\<close>, \<open>plan\<close> and \<open>iteration\<close>.
\<close>

record agent_context =
  ctx_memory :: string
  ctx_notes :: string
  ctx_userContext :: "string option"
  ctx_landscape :: "landscape_result option"
  ctx_plan :: "plan_result option"
  previousOutput :: "string option"
  previousResponse :: "agent_response option"
  ctx_iteration :: "nat option"

text \<open>The local variables of \<open>orchestrate\<close> that the loop changes.\<close>

record loop_state =
  responses :: "agent_response list"
  continueLoop :: bool
  iteration :: nat
  denialCount :: nat
  lastDeniedCommand :: "string option"
  agentContext :: agent_context

record orchestrate_result =
  success :: bool
  res_responses :: "agent_response list"
  res_landscape :: "landscape_result option"
  res_plan :: "plan_result option"
  iterations :: nat

definition is_digit :: "char \<Rightarrow> bool" where
  "is_digit c = (c \<in> set ''0123456789'')"

definition is_line_terminator :: "char \<Rightarrow> bool" where
  \<comment> \<open>what \<open>.\<close> does not match\<close>
  "is_line_terminator c = (c = CHR 0x0A \<or> c = CHR 0x0D)"

fun first_then :: "string \<Rightarrow> bool" where
  \<comment> \<open>\<open>/first.*then/\<close> on lower-cased text\<close>
  "first_then [] = False"
| "first_then (c # cs) =
     ((startsWith (c # cs) ''first'' \<and>
       js_includes (takeWhile (\<lambda>x. \<not> is_line_terminator x) (drop 5 (c # cs))) ''then'')
      \<or> first_then cs)"

fun digits_dot :: "string \<Rightarrow> bool" where
  \<comment> \<open>\<open>/\d+\./\<close>: some digit is followed by a dot\<close>
  "digits_dot (c # d # cs) = ((is_digit c \<and> d = CHR ''.'') \<or> digits_dot (d # cs))"
| "digits_dot cs = False"

fun step_digits :: "string \<Rightarrow> bool" where
  \<comment> \<open>\<open>/step \d+/\<close> on lower-cased text\<close>
  "step_digits [] = False"
| "step_digits (c # cs) =
     ((startsWith (c # cs) ''step '' \<and>
       (case drop 5 (c # cs) of [] \<Rightarrow> False | d # _ \<Rightarrow> is_digit d))
      \<or> step_digits cs)"

definition shouldUseLandscape :: "string \<Rightarrow> bool" where
  "shouldUseLandscape q =
     (let lq = toLowerCase q in
      js_includes lq ''and then'' \<or>
      first_then lq \<or>
      js_includes lq ''multiple'' \<or>
      js_includes lq ''several'' \<or>
      digits_dot q \<or>
      step_digits lq \<or>
      length (split_where (\<lambda>c. c \<in> set ''.!?'') q) > 3)"

definition truthy :: "string option \<Rightarrow> bool" where
  \<comment> \<open>a string that is neither \<open>null\<close> nor empty\<close>
  "truthy s = (case s of None \<Rightarrow> False | Some t \<Rightarrow> t \<noteq> [])"

definition runLandscapeAnalysis :: "env \<Rightarrow> string \<Rightarrow> string option \<Rightarrow> landscape_result io" where
  "runLandscapeAnalysis env q contextInfo w =
     (let landscapePrompt =
            ''Analyze this user query to understand overall intent and approach:\<newline>\<newline>User Query: ''
            @ q @ ''\<newline>\<newline>'' @
            (if truthy contextInfo then ''Additional Context: '' @ the contextInfo else []) @
            ''\<newline>\<newline>Provide a meta-analysis of what the user wants to accomplish.''
      in (landscapeAgent env (length (llm_log w)) landscapePrompt,
          w\<lparr>llm_log := llm_log w @ [LandscapeCall landscapePrompt]\<rparr>))"

definition createPlanSteps ::
  "env \<Rightarrow> string \<Rightarrow> landscape_result \<Rightarrow> string option \<Rightarrow> plan_result io" where
  "createPlanSteps env q landscape contextInfo w =
     (let planPrompt =
            ''Break down this task into clear, actionable steps:\<newline>\<newline>User Request: ''
            @ q @ ''\<newline>\<newline>Overall Intent: '' @ overallIntent landscape @
            ''\<newline>Suggested Approach: '' @ suggestedApproach landscape @ ''\<newline>\<newline>'' @
            (if truthy contextInfo then ''Additional Context: '' @ the contextInfo else []) @
            ''\<newline>\<newline>Create a detailed step-by-step plan.''
      in (planStepsAgent env (length (llm_log w)) planPrompt,
          w\<lparr>llm_log := llm_log w @ [PlanCall planPrompt]\<rparr>))"

definition callApproval ::
  "(nat \<Rightarrow> string \<Rightarrow> string \<Rightarrow> error + bool) option \<Rightarrow> string \<Rightarrow> string \<Rightarrow> bool io" where
  \<comment> \<open>\<open>await askApproval(command, reasoning)\<close>: calling \<open>null\<close> is a TypeError\<close>
  "callApproval cb command rationale w =
     (case cb of
        None \<Rightarrow> (Inl (TypeError ''askApproval is not a function''), w)
      | Some f \<Rightarrow>
          (f (length (approval_log w)) command rationale,
           w\<lparr>approval_log := approval_log w @ [(command, rationale)]\<rparr>))"

definition runCommand :: "env \<Rightarrow> string \<Rightarrow> exec_result io" where
  \<comment> \<open>\<open>await executeCommand(command)\<close> of the terminal executor, a parameter\<close>
  "runCommand env command w =
     (executeCommand env (length (exec_log w)) command,
      w\<lparr>exec_log := exec_log w @ [command]\<rparr>)"

definition handleTerminalCommand ::
  "env \<Rightarrow> agent_response \<Rightarrow> (nat \<Rightarrow> string \<Rightarrow> string \<Rightarrow> error + bool) option
     \<Rightarrow> terminal_result io" where
  "handleTerminalCommand env r cb =
     io_bind (if requiresApproval r
              then callApproval cb (terminalCommand r) (commandReasoning r)
              else ret True) (\<lambda>is_approved.
     if \<not> is_approved
     then ret \<lparr>executed = False, tr_output = ''User declined to execute command'',
               tr_exitCode = None, tr_error = None, approved = False\<rparr>
     else
     io_bind (runCommand env (terminalCommand r)) (\<lambda>result.
     ret \<lparr>executed = True, tr_output = stdout_text result,
          tr_exitCode = Some (exitCode result), tr_error = error_text result,
          approved = True\<rparr>))"

definition buildContextString :: "agent_context \<Rightarrow> string" where
  "buildContextString c =
     (if ctx_memory c \<noteq> [] then ctx_memory c @ ''\<newline>\<newline>'' else []) @
     (case ctx_landscape c of
        None \<Rightarrow> []
      | Some l \<Rightarrow>
          ''=== LANDSCAPE ANALYSIS ===\<newline>'' @
          ''Intent: '' @ overallIntent l @ ''\<newline>'' @
          ''Approach: '' @ suggestedApproach l @ ''\<newline>'' @
          ''Priority: '' @ priority l @ ''\<newline>\<newline>'') @
     (case ctx_plan c of
        None \<Rightarrow> []
      | Some p \<Rightarrow>
          ''=== PLAN ===\<newline>'' @
          concat (map (\<lambda>(idx, step). show_nat (idx + 1) @ ''. '' @ stepDescription step @ ''\<newline>'')
                    (zip [0 ..< length (steps p)] (steps p))) @
          ''\<newline>'') @
     (if ctx_notes c \<noteq> [] then ''=== AGENT NOTES ===\<newline>'' @ ctx_notes c @ ''\<newline>\<newline>'' else []) @
     (case previousResponse c of
        None \<Rightarrow> []
      | Some r \<Rightarrow>
          ''=== PREVIOUS RESPONSE ===\<newline>'' @
          ''Choice: '' @ choice r @ ''\<newline>'' @
          (if response r \<noteq> [] then ''Response: '' @ response r @ ''\<newline>'' else []) @
          ''\<newline>'') @
     (if truthy (previousOutput c)
      then ''=== TERMINAL OUTPUT ===\<newline>'' @ the (previousOutput c) @ ''\<newline>\<newline>'' else []) @
     (if truthy (ctx_userContext c)
      then ''=== USER CONTEXT ===\<newline>'' @ the (ctx_userContext c) @ ''\<newline>\<newline>'' else []) @
     (case ctx_iteration c of
        None \<Rightarrow> []
      | Some n \<Rightarrow> if n \<noteq> 0 then ''[Iteration '' @ show_nat n @ '']\<newline>\<newline>'' else [])"

definition step_matches :: "plan_step \<Rightarrow> string \<Rightarrow> string \<Rightarrow> bool" where
  \<comment> \<open>the test of \<open>tryCompleteMatchingStep\<close> for one step: at least 2 of the step's words
      longer than 4 characters occur in the action text\<close>
  "step_matches step actionContent rationale =
     (let stepText = toLowerCase (stepDescription step);
          actionText = toLowerCase (actionContent @ '' '' @ js_or rationale []);
          keywords = filter (\<lambda>w. length w > 4) (split_ws stepText);
          matches = filter (\<lambda>kw. js_includes actionText kw) keywords
      in length matches \<ge> 2)"

fun tryCompleteFrom :: "env \<Rightarrow> nat \<Rightarrow> plan_step list \<Rightarrow> string \<Rightarrow> string \<Rightarrow> unit io" where
  \<comment> \<open>the \<open>for\<close> loop of \<open>tryCompleteMatchingStep\<close> from index \<open>i\<close> on, over the steps left\<close>
  "tryCompleteFrom env i [] actionContent rationale = ret ()"
| "tryCompleteFrom env i (step # rest) actionContent rationale =
     (if step_matches step actionContent rationale
      then io_bind (completeStep env (i + 1)) (\<lambda>_.
           addContext env
             (''Auto-completed step '' @ show_nat (i + 1) @ '': '' @ stepDescription step))
      else tryCompleteFrom env (i + 1) rest actionContent rationale)"

definition tryCompleteMatchingStep ::
  "env \<Rightarrow> plan_step list \<Rightarrow> string \<Rightarrow> string \<Rightarrow> unit io" where
  "tryCompleteMatchingStep env steps_list actionContent rationale =
     tryCompleteFrom env 0 steps_list actionContent rationale"

definition notify :: "error option \<Rightarrow> unit io" where
  \<comment> \<open>the outcome of a callback: it returns, or throws\<close>
  "notify r = (case r of None \<Rightarrow> ret () | Some e \<Rightarrow> throw e)"

definition queryBaseAgent :: "env \<Rightarrow> string \<Rightarrow> string \<Rightarrow> agent_response io" where
  \<comment> \<open>\<open>queryOpenAI(userQuery, {schema: baseAgentExtendedResponseSchema, context})\<close>\<close>
  "queryBaseAgent env q contextString w =
     (baseAgent env (length (llm_log w)) q contextString,
      w\<lparr>llm_log := llm_log w @ [BaseCall q contextString]\<rparr>)"

definition terminalBranch ::
  "env \<Rightarrow> options \<Rightarrow> plan_result option \<Rightarrow> agent_response \<Rightarrow> loop_state
     \<Rightarrow> (bool \<times> agent_response \<times> loop_state) io" where
  \<comment> \<open>lines 190-227, \<open>if (response.choice === 'terminalCommand')\<close>. The result says whether
      \<open>break\<close> was taken, and gives the response object and the variables after the block.
      The response object is the one pushed on \<open>responses\<close> just before, so that setting
      its \<open>terminalResult\<close> changes the last element of \<open>responses\<close>.\<close>
  "terminalBranch env opts plan r0 st0 =
     (if choice r0 = ''terminalCommand''
      then
        io_bind (handleTerminalCommand env r0 (askApproval opts)) (\<lambda>terminalResultV.
        let r = r0\<lparr>terminalResult := Some terminalResultV\<rparr>;
            st1 = st0\<lparr>responses := (responses st0)[length (responses st0) - 1 := r]\<rparr>;
            st2 = st1\<lparr>agentContext :=
                        (agentContext st1)\<lparr>previousOutput := Some (tr_output terminalResultV)\<rparr>\<rparr>
        in
        if executed terminalResultV
        then
          io_bind (addCompleted env (''Executed: '' @ terminalCommand r)) (\<lambda>_.
          io_bind (case plan of
                     None \<Rightarrow> ret ()
                   | Some p \<Rightarrow>
                       tryCompleteMatchingStep env (steps p) (terminalCommand r)
                         (commandReasoning r)) (\<lambda>_.
          ret (False, r, st2\<lparr>denialCount := 0, lastDeniedCommand := None\<rparr>)))
        else
          io_bind (addBlocker env (''Command declined: '' @ terminalCommand r)) (\<lambda>_.
          let st3 = (if lastDeniedCommand st2 = Some (terminalCommand r)
                     then st2\<lparr>denialCount := denialCount st2 + 1\<rparr>
                     else st2\<lparr>denialCount := 1,
                             lastDeniedCommand := Some (terminalCommand r)\<rparr>)
          in
          if denialCount st3 \<ge> MAX_DENIAL_RETRIES
          then
            io_bind (addBlocker env ''Too many command denials - stopping iteration'') (\<lambda>_.
            ret (True, r, st3\<lparr>continueLoop := False\<rparr>))
          else ret (False, r, st3)))
      else ret (False, r0, st0))"

definition thinkingStep :: "options \<Rightarrow> nat \<Rightarrow> unit io" where
  \<comment> \<open>lines 174-176, \<open>if (iteration > 1 && onThinking) onThinking(iteration)\<close>\<close>
  "thinkingStep opts n =
     (if n > 1
      then (case onThinking opts of
              None \<Rightarrow> ret ()
            | Some f \<Rightarrow> notify (f n))
      else ret ())"

definition recordTurn ::
  "env \<Rightarrow> options \<Rightarrow> string \<Rightarrow> plan_result option \<Rightarrow> agent_response \<Rightarrow> loop_state
     \<Rightarrow> loop_state io" where
  \<comment> \<open>lines 229-262, what a pass does after the terminal block when \<open>break\<close> was not taken\<close>
  "recordTurn env opts userQuery plan r st3 =
     io_bind (if choice r = ''code''
              then io_bind (addCompleted env (''Generated '' @ language r @ '' code'')) (\<lambda>_.
                   case plan of
                     None \<Rightarrow> ret ()
                   | Some p \<Rightarrow>
                       tryCompleteMatchingStep env (steps p) (code r) (codeExplanation r))
              else ret ()) (\<lambda>_.
     io_bind (for_each (missingContext r) (\<lambda>missing. addBlocker env (''Missing: '' @ missing))) (\<lambda>_.
     io_bind (case onResponse opts of
                None \<Rightarrow> ret ()
              | Some f \<Rightarrow> notify (f r (iteration st3))) (\<lambda>_.
     io_bind (addInteraction env \<lparr>query = userQuery, context_of = userContext opts\<rparr> r) (\<lambda>_.
     ret (st3\<lparr>agentContext :=
                (agentContext st3)\<lparr>previousResponse := Some r,
                                   ctx_iteration := Some (iteration st3)\<rparr>,
              continueLoop := (continue r \<and> iteration st3 < MAX_CONTINUE_ITERATIONS)\<rparr>)))))"

definition turn ::
  "env \<Rightarrow> options \<Rightarrow> string \<Rightarrow> plan_result option \<Rightarrow> loop_state \<Rightarrow> loop_state io" where
  \<comment> \<open>one pass through the body of the \<open>do ... while (continueLoop)\<close> loop, lines 172-262\<close>
  "turn env opts userQuery plan st0 =
     (let st1 = st0\<lparr>iteration := iteration st0 + 1\<rparr> in
      io_bind (thinkingStep opts (iteration st1)) (\<lambda>_.
      let contextString = buildContextString (agentContext st1) in
      io_bind (queryBaseAgent env userQuery contextString) (\<lambda>r0.
      let st2 = st1\<lparr>responses := responses st1 @ [r0]\<rparr> in
      io_bind (terminalBranch env opts plan r0 st2) (\<lambda>(break, r, st3).
      if break then ret st3
      else recordTurn env opts userQuery plan r st3))))"

function loop ::
  "env \<Rightarrow> options \<Rightarrow> string \<Rightarrow> plan_result option \<Rightarrow> loop_state \<Rightarrow> loop_state io" where
  \<comment> \<open>\<open>do { ... } while (continueLoop)\<close>: the body runs first, the flag is tested after\<close>
  "loop env opts userQuery plan st w =
     (case turn env opts userQuery plan st w of
        (Inl e, w') \<Rightarrow> (Inl e, w')
      | (Inr st', w') \<Rightarrow>
          if continueLoop st' then loop env opts userQuery plan st' w' else (Inr st', w'))"
  by pat_completeness auto
termination
proof (relation "measure (\<lambda>(env, opts, q, plan, st, w). MAX_CONTINUE_ITERATIONS - iteration st)")
  show "wf (measure (\<lambda>(env, opts, q, plan, st, w). MAX_CONTINUE_ITERATIONS - iteration st))"
    by simp
next
  fix env opts q plan st w x1 x2 st'
  assume run: "(x1, x2) = turn env opts q plan st w" "x1 = Inr st'" and again: "continueLoop st'"
  have branch: "iteration s' = iteration s \<and> (brk \<longrightarrow> \<not> continueLoop s')"
    if "terminalBranch env opts plan r0 s v = (Inr (brk, r, s'), v')" for r0 s v brk r s' v'
    using that
    by (auto simp: terminalBranch_def io_bind_def ret_def Let_def
        split: if_splits sum.splits prod.splits)
  from run have "turn env opts q plan st w = (Inr st', x2)"
    by simp
  with again have "iteration st' = Suc (iteration st) \<and> iteration st' < MAX_CONTINUE_ITERATIONS"
    by (auto simp: turn_def recordTurn_def io_bind_def ret_def Let_def
        split: if_splits sum.splits prod.splits dest!: branch)
  then show "((env, opts, q, plan, st', x2), env, opts, q, plan, st, w)
       \<in> measure (\<lambda>(env, opts, q, plan, st, w). MAX_CONTINUE_ITERATIONS - iteration st)"
    by auto
qed

declare loop.simps [simp del]

definition orchestrate :: "env \<Rightarrow> string \<Rightarrow> options \<Rightarrow> orchestrate_result io" where
  "orchestrate env userQuery opts =
     try_catch
       (io_bind (loadNotes env) (\<lambda>notes.
        io_bind getMemoryContextString (\<lambda>memoryContext.
        io_bind
          (if \<not> skipLandscape opts \<and> shouldUseLandscape userQuery
           then
             io_bind (runLandscapeAnalysis env userQuery (userContext opts)) (\<lambda>landscape.
             if priority landscape = ''high'' \<or> priority landscape = ''critical''
             then
               io_bind (createPlanSteps env userQuery landscape (userContext opts)) (\<lambda>plan.
               io_bind (updateCurrentTask env
                          (overallIntent landscape @ ''\<newline>\<newline>Priority: '' @ priority landscape @
                           ''\<newline>Approach: '' @ suggestedApproach landscape)) (\<lambda>_.
               io_bind (setPlan env (steps plan)) (\<lambda>_.
               io_bind (for_each (plan_missingContext plan)
                          (\<lambda>missing. addBlocker env (''Missing: '' @ missing))) (\<lambda>_.
               ret (Some landscape, Some plan)))))
             else ret (Some landscape, None))
           else ret (None, None)) (\<lambda>(landscape, plan).
        let agentContext0 =
              \<lparr>ctx_memory = memoryContext, ctx_notes = notes,
               ctx_userContext = userContext opts, ctx_landscape = landscape,
               ctx_plan = plan, previousOutput = None, previousResponse = None,
               ctx_iteration = None\<rparr>;
            st0 = \<lparr>responses = [], continueLoop = False, iteration = 0, denialCount = 0,
                   lastDeniedCommand = None, agentContext = agentContext0\<rparr>
        in
        io_bind (loop env opts userQuery plan st0) (\<lambda>st.
        ret \<lparr>success = True, res_responses = responses st, res_landscape = landscape,
             res_plan = plan, iterations = iteration st\<rparr>)))))
       (\<lambda>error. io_bind (addBlocker env (''Error: '' @ message error)) (\<lambda>_. throw error))"

definition orchestrateSimple :: "env \<Rightarrow> string \<Rightarrow> options \<Rightarrow> orchestrate_result io" where
  "orchestrateSimple env userQuery opts = orchestrate env userQuery (opts\<lparr>skipLandscape := True\<rparr>)"

section \<open>Observations on a run\<close>

fun is_base_call :: "llm_call \<Rightarrow> bool" where
  "is_base_call (BaseCall q c) = True"
| "is_base_call (LandscapeCall p) = False"
| "is_base_call (PlanCall p) = False"
| "is_base_call (SummarizeCall xs) = False"

definition log_count :: "(llm_call \<Rightarrow> bool) \<Rightarrow> world \<Rightarrow> nat" where
  \<comment> \<open>how many calls of the log have a property\<close>
  "log_count h w = length (filter h (llm_log w))"

definition only_base :: "(llm_call \<Rightarrow> bool) \<Rightarrow> bool" where
  \<comment> \<open>a property that only calls for a turn can have\<close>
  "only_base h = (\<forall>x. h x \<longrightarrow> is_base_call x)"

definition base_calls :: "world \<Rightarrow> nat" where
  \<comment> \<open>how often the reasoning collaborator was asked for a turn\<close>
  "base_calls w = length (filter is_base_call (llm_log w))"

fun add_all :: "env \<Rightarrow> (request \<times> agent_response) list \<Rightarrow> unit io" where
  \<comment> \<open>a client that calls \<open>addInteraction\<close> once per element, as the loops of
      \<open>test-memory-system.js\<close> do\<close>
  "add_all env [] = ret ()"
| "add_all env (x # xs) = io_bind (addInteraction env (fst x) (snd x)) (\<lambda>_. add_all env xs)"

definition stored_memory :: "world \<Rightarrow> memory" where
  \<comment> \<open>what \<open>loadMemory\<close> returns in a world\<close>
  "stored_memory w = (case memory_file w of Holds (Json m) \<Rightarrow> m | _ \<Rightarrow> emptyMemory)"

definition covered :: "summary_record \<Rightarrow> nat \<times> nat" where
  \<comment> \<open>the ids a summary covers, first and last\<close>
  "covered s = (startId (range_of s), endId (range_of s))"

definition new_summary ::
  "env \<Rightarrow> world \<Rightarrow> interaction list \<Rightarrow> summarize_result \<Rightarrow> summary_record" where
  \<comment> \<open>the summary entry \<open>summarizeAndShift\<close> builds in a world from the collaborator's answer\<close>
  "new_summary env w xs r =
     \<lparr>range_of = \<lparr>startId = id_of (hd xs), endId = id_of (last xs),
                   startTs = ts (hd xs), endTs = ts (last xs)\<rparr>,
      summary_text = sr_summary r, summary_reasoning = sr_reasoning r,
      summary_ts = iso env (clock w)\<rparr>"

definition pushed :: "env \<Rightarrow> request \<Rightarrow> agent_response \<Rightarrow> world \<Rightarrow> interaction" where
  \<comment> \<open>the record \<open>addInteraction\<close> creates in a world\<close>
  "pushed env rq rs w =
     \<lparr>userRequest = rq, aiResponse = rs, ts = iso env (clock w),
      id_of = count (stored_memory w) + 1\<rparr>"

definition window_ids :: "nat \<Rightarrow> nat list" where
  \<comment> \<open>the ids of the active list after \<open>n\<close> additions to an empty memory\<close>
  "window_ids n = [Suc (n - 21) ..< Suc n]"

definition window :: "nat \<Rightarrow> world \<Rightarrow> bool" where
  "window n w =
     (count (stored_memory w) = n \<and>
      map id_of (interactions (stored_memory w)) = window_ids n)"

definition summary_spans :: "nat \<Rightarrow> (nat \<times> nat) list" where
  \<comment> \<open>the id ranges of the stored summaries after \<open>n\<close> additions to an empty memory,
      when every summarization succeeds\<close>
  "summary_spans n = map (\<lambda>k. (k - 20, k)) [max 22 (n - 2) ..< Suc n]"



definition grows :: "(world \<Rightarrow> nat) \<Rightarrow> nat \<Rightarrow> 'a io \<Rightarrow> bool" where
  \<comment> \<open>an action raises a counter of the world by at most \<open>k\<close>\<close>
  "grows f k m = (\<forall>w. f (snd (m w)) \<le> f w + k)"

subsection \<open>A write that is cut short\<close>

text \<open>
  \<open>saveNotes\<close> and \<open>saveMemory\<close> call \<open>fs.writeFile\<close> on the real file. That call opens
  the file with flag \<open>w\<close>, which empties it, and then writes the data. If the process
  dies after \<open>k\<close> characters the file holds the first \<open>k\<close> characters of the new text.
  A JSON document that lacks its last character does not parse.
\<close>

definition saveNotes_interrupted :: "nat \<Rightarrow> string \<Rightarrow> world \<Rightarrow> world" where
  "saveNotes_interrupted k content w = w\<lparr>notes_file := Holds (take k content)\<rparr>"

definition saveMemory_interrupted :: "memory \<Rightarrow> world \<Rightarrow> world" where
  "saveMemory_interrupted m w = w\<lparr>memory_file := Holds Malformed\<rparr>"

subsection \<open>Sample values\<close>

definition plain_response :: agent_response where
  "plain_response =
     \<lparr>choice = ''response'', response = ''ok'', code = [], language = [],
      codeExplanation = [], summary = [], missingContext = [], terminalCommand = [],
      commandReasoning = [], requiresApproval = False, continue = False,
      terminalResult = None\<rparr>"

definition command_response :: agent_response where
  \<comment> \<open>a command that needs approval, from a turn that asks to continue\<close>
  "command_response =
     plain_response\<lparr>choice := ''terminalCommand'', terminalCommand := ''rm -rf /tmp'',
       commandReasoning := ''clean up'', requiresApproval := True, continue := True\<rparr>"

definition code_response :: agent_response where
  "code_response =
     plain_response\<lparr>choice := ''code'', response := [], code := ''x = 1'',
       language := ''python'', codeExplanation := ''assign'', continue := True\<rparr>"

definition sample_env :: env where
  "sample_env =
     \<lparr>iso = (\<lambda>n. ''T'' @ show_nat n), memory_writable = True, notes_writable = True,
      summarizeAgent = (\<lambda>n xs. Inr \<lparr>sr_summary = ''recap'', sr_reasoning = ''kept facts''\<rparr>),
      landscapeAgent = (\<lambda>n p. Inl (Failure ''unavailable'')),
      planStepsAgent = (\<lambda>n p. Inl (Failure ''unavailable'')),
      baseAgent = (\<lambda>n q c. Inr plain_response),
      executeCommand = (\<lambda>n c. Inr \<lparr>stdout_text = ''done'', exitCode = 0, error_text = None\<rparr>)\<rparr>"

definition empty_world :: world where
  \<comment> \<open>no file written yet\<close>
  "empty_world =
     \<lparr>memory_file = Missing, notes_file = Missing, clock = 0, llm_log = [], exec_log = [],
      approval_log = []\<rparr>"

definition fresh_world :: world where
  \<comment> \<open>after \<open>clearMemory\<close> and \<open>clearNotes\<close>\<close>
  "fresh_world =
     empty_world\<lparr>memory_file := Holds (Json emptyMemory),
       notes_file := Holds (notes_template ''T'')\<rparr>"

definition simple_options :: options where
  "simple_options =
     \<lparr>userContext = None, askApproval = None, onThinking = None, onResponse = None,
      skipLandscape = True\<rparr>"

definition deny_options :: options where
  \<comment> \<open>an approval callback that declines every command\<close>
  "deny_options = simple_options\<lparr>askApproval := Some (\<lambda>n c r. Inr False)\<rparr>"

definition start_state :: "string \<Rightarrow> string \<Rightarrow> loop_state" where
  \<comment> \<open>the variables of \<open>orchestrate\<close> at the first pass, without analysis and plan, for
      the memory context and the notes it loaded\<close>
  "start_state memoryContext notes =
     \<lparr>responses = [], continueLoop = False, iteration = 0, denialCount = 0,
      lastDeniedCommand = None,
      agentContext =
        \<lparr>ctx_memory = memoryContext, ctx_notes = notes, ctx_userContext = None,
         ctx_landscape = None, ctx_plan = None, previousOutput = None,
         previousResponse = None, ctx_iteration = None\<rparr>\<rparr>"

definition command_env :: env where
  \<comment> \<open>the reasoning collaborator proposes the same command at every turn\<close>
  "command_env = sample_env\<lparr>baseAgent := (\<lambda>n q c. Inr command_response)\<rparr>"

definition code_env :: env where
  \<comment> \<open>the reasoning collaborator answers with code and asks to continue at every turn\<close>
  "code_env = sample_env\<lparr>baseAgent := (\<lambda>n q c. Inr code_response)\<rparr>"

definition long_memory :: memory where
  \<comment> \<open>one summary of 600 characters, one interaction with a query and a response of 250\<close>
  "long_memory =
     \<lparr>interactions =
        [\<lparr>userRequest = \<lparr>query = replicate 250 (CHR ''q''), context_of = None\<rparr>,
          aiResponse = plain_response\<lparr>response := replicate 250 (CHR ''r'')\<rparr>,
          ts = ''T1'', id_of = 23\<rparr>],
      summaries =
        [\<lparr>range_of = \<lparr>startId = 2, endId = 22, startTs = ''T0'', endTs = ''T1''\<rparr>,
          summary_text = replicate 600 (CHR ''s''), summary_reasoning = [],
          summary_ts = ''T2''\<rparr>],
      count = 23\<rparr>"

definition long_world :: world where
  "long_world = empty_world\<lparr>memory_file := Holds (Json long_memory)\<rparr>"

definition two_steps :: "plan_step list" where
  "two_steps =
     [\<lparr>stepDescription = ''Update server configuration'', reasoning = []\<rparr>,
      \<lparr>stepDescription = ''Update server configuration again'', reasoning = []\<rparr>]"

definition first_done_notes :: string where
  \<comment> \<open>the notes after \<open>setPlan two_steps\<close> and \<open>completeStep 1\<close>\<close>
  "first_done_notes =
     ''# Agent Notes\<newline>\<newline>## Current Task\<newline>None\<newline>\<newline>## Plan\<newline>- [x] 1. Update server configuration\<newline>- [ ] 2. Update server configuration again\<newline>\<newline>## Context\<newline>- Session started: T\<newline>\<newline>## Completed\<newline>- Nothing yet\<newline>\<newline>## Blockers\<newline>None\<newline>''"

definition first_done_world :: world where
  "first_done_world = empty_world\<lparr>notes_file := Holds first_done_notes\<rparr>"

definition first_decline :: "(error + loop_state) \<times> world" where
  \<comment> \<open>the first pass of \<open>orchestrate\<close> when the proposed command is declined\<close>
  "first_decline =
     turn command_env deny_options ''tidy up'' None (start_state [] (notes_template ''T''))
       fresh_world"

definition second_decline :: "(error + loop_state) \<times> world" where
  \<comment> \<open>the pass after it, the same command being proposed and declined again\<close>
  "second_decline =
     turn command_env deny_options ''tidy up'' None (projr (fst first_decline))
       (snd first_decline)"




section \<open>Lemmas on the effects and the memory system\<close>

lemma io_bind_ret [simp]: "io_bind (ret x) f = f x"
  by (rule ext) (simp add: io_bind_def ret_def)

lemma io_bind_throw [simp]: "io_bind (throw e) f = throw e"
  by (rule ext) (simp add: io_bind_def throw_def)

lemma loadMemory_run: "loadMemory w = (Inr (stored_memory w), w)"
  by (simp add: loadMemory_def try_catch_def io_bind_def lift_def readFile_def JSON_parse_def
      ret_def stored_memory_def split: disk_file.splits json_text.splits)

lemma summarizeAndShift_fail:
  "summarizeAgent env (length (llm_log w)) (drop 1 (interactions m)) = Inl e \<Longrightarrow>
   summarizeAndShift env m w =
     (Inr (m\<lparr>interactions := drop 1 (interactions m)\<rparr>),
      w\<lparr>llm_log := llm_log w @ [SummarizeCall (drop 1 (interactions m))]\<rparr>)"
  by (simp add: summarizeAndShift_def Let_def io_bind_def try_catch_def querySummarize_def ret_def)

lemma summarizeAndShift_ok:
  "summarizeAgent env (length (llm_log w)) (drop 1 (interactions m)) = Inr r \<Longrightarrow>
   drop 1 (interactions m) \<noteq> [] \<Longrightarrow>
   summarizeAndShift env m w =
     (Inr (m\<lparr>summaries := (let s = summaries m @ [new_summary env w (drop 1 (interactions m)) r]
                             in if length s > 3 then drop 1 s else s),
             interactions := drop 1 (interactions m)\<rparr>),
      w\<lparr>llm_log := llm_log w @ [SummarizeCall (drop 1 (interactions m))],
        clock := clock w + 1\<rparr>)"
  by (simp add: summarizeAndShift_def Let_def io_bind_def try_catch_def querySummarize_def ret_def
       now_iso_def new_summary_def MAX_SUMMARIES_def)

lemma addInteraction_small:
  assumes "memory_writable env" "length (interactions (stored_memory w)) < 21"
  shows "addInteraction env rq rs w =
     (Inr (pushed env rq rs w),
      w\<lparr>clock := clock w + 1,
        memory_file := Holds (Json ((stored_memory w)\<lparr>interactions := interactions (stored_memory w) @ [pushed env rq rs w], count := count (stored_memory w) + 1\<rparr>))\<rparr>)"
  using assms
  by (simp add: addInteraction_def io_bind_def loadMemory_run now_iso_def Let_def
      MAX_INTERACTIONS_def saveMemory_def ret_def JSON_stringify_def pushed_def)

lemma addInteraction_full_fail:
  assumes "memory_writable env" "length (interactions (stored_memory w)) \<ge> 21"
   "summarizeAgent env (length (llm_log w)) (drop 1 (interactions (stored_memory w) @ [pushed env rq rs w])) = Inl e"
  shows "addInteraction env rq rs w =
     (Inr (pushed env rq rs w),
      w\<lparr>clock := clock w + 1,
        llm_log := llm_log w @ [SummarizeCall (drop 1 (interactions (stored_memory w) @ [pushed env rq rs w]))],
        memory_file := Holds (Json ((stored_memory w)\<lparr>interactions := drop 1 (interactions (stored_memory w) @ [pushed env rq rs w]), count := count (stored_memory w) + 1\<rparr>))\<rparr>)"
  using assms
  by (simp add: addInteraction_def io_bind_def loadMemory_run now_iso_def Let_def
      MAX_INTERACTIONS_def saveMemory_def ret_def JSON_stringify_def pushed_def summarizeAndShift_fail)

lemma addInteraction_full_ok:
  assumes "memory_writable env" "length (interactions (stored_memory w)) \<ge> 21"
   "summarizeAgent env (length (llm_log w)) (drop 1 (interactions (stored_memory w) @ [pushed env rq rs w])) = Inr r"
  shows "addInteraction env rq rs w =
     (Inr (pushed env rq rs w),
      w\<lparr>clock := clock w + 2,
        llm_log := llm_log w @ [SummarizeCall (drop 1 (interactions (stored_memory w) @ [pushed env rq rs w]))],
        memory_file := Holds (Json ((stored_memory w)\<lparr>
           interactions := drop 1 (interactions (stored_memory w) @ [pushed env rq rs w]),
           summaries := (let s = summaries (stored_memory w) @ [new_summary env (w\<lparr>clock := clock w + 1\<rparr>) (drop 1 (interactions (stored_memory w) @ [pushed env rq rs w])) r]
                             in if length s > 3 then drop 1 s else s),
           count := count (stored_memory w) + 1\<rparr>))\<rparr>)"
proof -
  have ne: "drop 1 (interactions (stored_memory w) @ [pushed env rq rs w]) \<noteq> []"
    using assms(2) by simp
  show ?thesis
  using assms ne
  by (simp add: addInteraction_def io_bind_def loadMemory_run now_iso_def Let_def
      MAX_INTERACTIONS_def saveMemory_def ret_def JSON_stringify_def pushed_def summarizeAndShift_ok new_summary_def)
qed

lemma window_length: "window n w \<Longrightarrow> length (interactions (stored_memory w)) = min n 21"
proof -
  assume "window n w"
  then have "length (map id_of (interactions (stored_memory w))) = length (window_ids n)"
    by (simp add: window_def)
  then show ?thesis by (simp add: window_ids_def) arith
qed

lemma covered_new_summary:
  "xs \<noteq> [] \<Longrightarrow> covered (new_summary env w xs r) = (hd (map id_of xs), last (map id_of xs))"
  by (simp add: covered_def new_summary_def hd_map last_map)

lemma stored_memory_write [simp]: "stored_memory (w\<lparr>memory_file := Holds (Json m)\<rparr>) = m"
  by (simp add: stored_memory_def)

lemma drop1_map_snoc:
  "(let l = xs @ [s] in if length l > 3 then map f (drop 1 l) else map f l) =
   (let l = map f xs @ [f s] in if length l > 3 then drop 1 l else l)"
  by (simp add: Let_def drop_map)

lemma addInteraction_step:
  assumes wr: "memory_writable env" and inv: "window n w"
  shows "\<exists>i w'. addInteraction env rq rs w = (Inr i, w') \<and> id_of i = Suc n \<and> window (Suc n) w' \<and>
    (n < 21 \<longrightarrow> llm_log w' = llm_log w \<and> summaries (stored_memory w') = summaries (stored_memory w)) \<and>
    (21 \<le> n \<longrightarrow> (\<exists>ts. llm_log w' = llm_log w @ [SummarizeCall ts] \<and> map id_of ts = [n - 19 ..< n + 2] \<and>
        (case summarizeAgent env (length (llm_log w)) ts of
           Inl e \<Rightarrow> summaries (stored_memory w') = summaries (stored_memory w)
         | Inr r \<Rightarrow> map covered (summaries (stored_memory w')) =
               (let l = map covered (summaries (stored_memory w)) @ [(n - 19, Suc n)]
                in if length l > 3 then drop 1 l else l))))"
proof (cases "n < 21")
  case True
  with window_length[OF inv] have len: "length (interactions (stored_memory w)) < 21" by simp
  from True inv show ?thesis
    by (simp add: addInteraction_small[OF wr len] window_def pushed_def window_ids_def)
next
  case False
  with window_length[OF inv] have len: "length (interactions (stored_memory w)) \<ge> 21" by simp
  let ?p = "pushed env rq rs w"
  let ?ts = "drop 1 (interactions (stored_memory w) @ [?p])"
  have ids: "map id_of ?ts = [n - 19 ..< n + 2]"
  proof -
    have "map id_of ?ts = drop 1 (map id_of (interactions (stored_memory w) @ [?p]))"
      by (simp only: drop_map)
    also have "map id_of (interactions (stored_memory w) @ [?p]) = window_ids n @ [Suc n]"
      using inv by (simp add: window_def pushed_def)
    also have "window_ids n @ [Suc n] = [n - 20 ..< Suc (Suc n)]"
    proof -
      have "Suc (n - 21) = n - 20" "n - 20 \<le> Suc n" using False by arith+
      then show ?thesis by (simp add: window_ids_def)
    qed
    also have "drop 1 [n - 20 ..< Suc (Suc n)] = [n - 19 ..< n + 2]"
    proof -
      have "n - 20 + 1 = n - 19" using False by arith
      then show ?thesis by (simp add: drop_upt del: upt_Suc)
    qed
    finally show ?thesis .
  qed
  have ne: "?ts \<noteq> []" using len by simp
  have hd_last: "hd (map id_of ?ts) = n - 19" "last (map id_of ?ts) = Suc n"
    unfolding ids using False by (simp_all add: hd_upt last_upt del: upt_Suc)
  have win: "window_ids (Suc n) = [n - 19 ..< n + 2]"
  proof -
    have "Suc (Suc n - 21) = n - 19" using False by arith
    then show ?thesis by (simp add: window_ids_def del: upt_Suc)
  qed
  have cnt: "count (stored_memory w) = n" using inv by (simp add: window_def)
  have idp: "id_of ?p = Suc n" using cnt by (simp add: pushed_def)
  show ?thesis
  proof (cases "summarizeAgent env (length (llm_log w)) ?ts")
    case (Inl e)
    have "window (Suc n) (snd (addInteraction env rq rs w))"
      unfolding addInteraction_full_fail[OF wr len Inl] window_def
      using cnt ids win by (simp del: drop_append upt_Suc One_nat_def)
    with False Inl ids idp show ?thesis
      unfolding addInteraction_full_fail[OF wr len Inl]
      by (simp del: drop_append upt_Suc One_nat_def)
  next
    case (Inr r)
    let ?s = "new_summary env (w\<lparr>clock := clock w + 1\<rparr>) ?ts r"
    have cov: "covered ?s = (n - 19, Suc n)"
      using covered_new_summary[OF ne] hd_last by simp
    have win': "window (Suc n) (snd (addInteraction env rq rs w))"
      unfolding addInteraction_full_ok[OF wr len Inr] window_def
      using cnt ids win by (simp del: drop_append upt_Suc One_nat_def)
    have sums: "map covered (summaries (stored_memory (snd (addInteraction env rq rs w)))) =
               (let l = map covered (summaries (stored_memory w)) @ [(n - 19, Suc n)]
                in if length l > 3 then drop 1 l else l)"
      unfolding addInteraction_full_ok[OF wr len Inr]
      using cov by (simp add: Let_def drop_map[symmetric] del: drop_append upt_Suc One_nat_def)
    from False Inr ids idp win' sums show ?thesis
      unfolding addInteraction_full_ok[OF wr len Inr]
      by (simp del: drop_append upt_Suc One_nat_def)
  qed
qed

lemma add_all_window:
  assumes wr: "memory_writable env"
  shows "window n w \<Longrightarrow> \<exists>w'. add_all env xs w = (Inr (), w') \<and> window (n + length xs) w' \<and>
     (n + length xs \<le> 21 \<longrightarrow> llm_log w' = llm_log w \<and>
        summaries (stored_memory w') = summaries (stored_memory w))"
proof (induction xs arbitrary: n w)
  case Nil
  then show ?case by (simp add: ret_def)
next
  case (Cons x xs)
  from addInteraction_step[OF wr Cons.prems, of "fst x" "snd x"]
  obtain i w1 where run: "addInteraction env (fst x) (snd x) w = (Inr i, w1)"
    and w1: "window (Suc n) w1"
    and small: "n < 21 \<longrightarrow> llm_log w1 = llm_log w \<and> summaries (stored_memory w1) = summaries (stored_memory w)"
    by blast
  from Cons.IH[OF w1] obtain w' where rest: "add_all env xs w1 = (Inr (), w')"
    and w': "window (Suc n + length xs) w'"
    and small': "Suc n + length xs \<le> 21 \<longrightarrow> llm_log w' = llm_log w1 \<and>
        summaries (stored_memory w') = summaries (stored_memory w1)"
    by blast
  from run rest have "add_all env (x # xs) w = (Inr (), w')"
    by (simp add: io_bind_def)
  with w' small small' show ?case by auto
qed

lemma add_all_append:
  "add_all env (xs @ ys) = io_bind (add_all env xs) (\<lambda>_. add_all env ys)"
  by (induction xs) (auto simp: io_bind_def fun_eq_iff split: sum.splits prod.splits)

lemma window_empty: "stored_memory w = emptyMemory \<Longrightarrow> window 0 w"
  by (simp add: window_def window_ids_def emptyMemory_def)

lemma summary_spans_small: "n \<le> 21 \<Longrightarrow> summary_spans n = []"
  by (simp add: summary_spans_def)

lemma summary_spans_step:
  assumes "21 \<le> n"
  shows "(let l = summary_spans n @ [(n - 19, Suc n)] in if length l > 3 then drop 1 l else l)
         = summary_spans (Suc n)"
proof -
  let ?f = "\<lambda>k::nat. (k - 20, k)"
  have f: "(n - 19, Suc n) = ?f (Suc n)" using assms by (simp add: Suc_diff_le) 
  have le: "max 22 (n - 2) \<le> Suc n" using assms by arith
  have app: "summary_spans n @ [(n - 19, Suc n)] = map ?f [max 22 (n - 2) ..< Suc (Suc n)]"
    unfolding f summary_spans_def using le by simp
  show ?thesis
  proof (cases "24 \<le> n")
    case True
    then have m: "max 22 (n - 2) = n - 2" "max 22 (Suc n - 2) = n - 1" "n - 2 + 1 = n - 1"
      by arith+
    have len4: "3 < length (map ?f [max 22 (n - 2) ..< Suc (Suc n)])"
      using True by (simp add: m del: upt_Suc)
    have "(let l = summary_spans n @ [(n - 19, Suc n)] in if length l > 3 then drop 1 l else l)
          = drop 1 (map ?f [max 22 (n - 2) ..< Suc (Suc n)])"
      unfolding Let_def app using len4 by (simp only: if_True)
    also have "\<dots> = map ?f [n - 1 ..< Suc (Suc n)]"
      by (simp only: drop_map drop_upt m)
    also have "\<dots> = summary_spans (Suc n)"
      unfolding summary_spans_def by (simp only: m)
    finally show ?thesis .
  next
    case False
    with assms have m: "max 22 (n - 2) = 22" "max 22 (Suc n - 2) = 22"
      by arith+
    have len3: "\<not> 3 < length (map ?f [max 22 (n - 2) ..< Suc (Suc n)])"
      using False by (simp add: m del: upt_Suc)
    have "(let l = summary_spans n @ [(n - 19, Suc n)] in if length l > 3 then drop 1 l else l)
          = map ?f [max 22 (n - 2) ..< Suc (Suc n)]"
      unfolding Let_def app using len3 by (simp only: if_False)
    also have "\<dots> = summary_spans (Suc n)"
      unfolding summary_spans_def by (simp only: m)
    finally show ?thesis .
  qed
qed

lemma addInteraction_spans:
  assumes wr: "memory_writable env"
    and ok: "\<And>k ts. \<exists>r. summarizeAgent env k ts = Inr r"
    and win: "window n w"
    and sp: "map covered (summaries (stored_memory w)) = summary_spans n"
  shows "\<exists>i w'. addInteraction env rq rs w = (Inr i, w') \<and> window (Suc n) w' \<and>
           map covered (summaries (stored_memory w')) = summary_spans (Suc n)"
proof -
  from addInteraction_step[OF wr win, of rq rs]
  obtain i w' where run: "addInteraction env rq rs w = (Inr i, w')"
    and w': "window (Suc n) w'"
    and small: "n < 21 \<longrightarrow> summaries (stored_memory w') = summaries (stored_memory w)"
    and big: "21 \<le> n \<longrightarrow> (\<exists>ts. llm_log w' = llm_log w @ [SummarizeCall ts] \<and> map id_of ts = [n - 19 ..< n + 2] \<and>
        (case summarizeAgent env (length (llm_log w)) ts of
           Inl e \<Rightarrow> summaries (stored_memory w') = summaries (stored_memory w)
         | Inr r \<Rightarrow> map covered (summaries (stored_memory w')) =
               (let l = map covered (summaries (stored_memory w)) @ [(n - 19, Suc n)]
                in if length l > 3 then drop 1 l else l)))"
    by blast
  have "map covered (summaries (stored_memory w')) = summary_spans (Suc n)"
  proof (cases "n < 21")
    case True
    with small sp show ?thesis by (simp add: summary_spans_small)
  next
    case False
    then have n: "21 \<le> n" by simp
    with big obtain ts where c: "(case summarizeAgent env (length (llm_log w)) ts of
           Inl e \<Rightarrow> summaries (stored_memory w') = summaries (stored_memory w)
         | Inr r \<Rightarrow> map covered (summaries (stored_memory w')) =
               (let l = map covered (summaries (stored_memory w)) @ [(n - 19, Suc n)]
                in if length l > 3 then drop 1 l else l))"
      by blast
    from ok[of "length (llm_log w)" ts] obtain r where "summarizeAgent env (length (llm_log w)) ts = Inr r"
      by blast
    with c have "map covered (summaries (stored_memory w')) =
               (let l = summary_spans n @ [(n - 19, Suc n)]
                in if length l > 3 then drop 1 l else l)"
      by (simp add: sp)
    then show ?thesis by (simp only: summary_spans_step[OF n])
  qed
  with run w' show ?thesis by blast
qed

lemma add_all_spans:
  assumes wr: "memory_writable env"
    and ok: "\<And>k ts. \<exists>r. summarizeAgent env k ts = Inr r"
  shows "window n w \<Longrightarrow> map covered (summaries (stored_memory w)) = summary_spans n \<Longrightarrow>
     \<exists>w'. add_all env xs w = (Inr (), w') \<and> window (n + length xs) w' \<and>
       map covered (summaries (stored_memory w')) = summary_spans (n + length xs)"
proof (induction xs arbitrary: n w)
  case Nil
  then show ?case by (simp add: ret_def)
next
  case (Cons x xs)
  from addInteraction_spans[OF wr ok Cons.prems, of "fst x" "snd x"]
  obtain i w1 where run: "addInteraction env (fst x) (snd x) w = (Inr i, w1)"
    and w1: "window (Suc n) w1"
    and s1: "map covered (summaries (stored_memory w1)) = summary_spans (Suc n)"
    by blast
  from Cons.IH[OF w1 s1] obtain w' where rest: "add_all env xs w1 = (Inr (), w')"
    and w': "window (Suc n + length xs) w'"
    and s': "map covered (summaries (stored_memory w')) = summary_spans (Suc n + length xs)"
    by blast
  from run rest have "add_all env (x # xs) w = (Inr (), w')"
    by (simp add: io_bind_def)
  with w' s' show ?case by auto
qed

lemma summary_spans_length: "length (summary_spans n) \<le> 3"
  by (simp add: summary_spans_def) arith

lemma loadNotes_run:
  "loadNotes env w =
     (case notes_file w of
        Holds n \<Rightarrow> (Inr n, w)
      | _ \<Rightarrow> (Inr (notes_template (iso env (clock w))), w\<lparr>clock := clock w + 1\<rparr>))"
  by (simp add: loadNotes_def try_catch_def readFile_def io_bind_def now_iso_def ret_def
      split: disk_file.splits)

lemma tryCompleteFrom_none:
  "list_all (\<lambda>s. \<not> step_matches s a r) ss \<Longrightarrow> tryCompleteFrom env k ss a r = ret ()"
  by (induction ss arbitrary: k) simp_all

lemma tryCompleteFrom_first:
  "i < length ss \<Longrightarrow> step_matches (ss ! i) a r \<Longrightarrow> (\<forall>j<i. \<not> step_matches (ss ! j) a r) \<Longrightarrow>
   tryCompleteFrom env k ss a r =
     io_bind (completeStep env (k + i + 1)) (\<lambda>_.
       addContext env (''Auto-completed step '' @ show_nat (k + i + 1) @ '': '' @ stepDescription (ss ! i)))"
proof (induction ss arbitrary: k i)
  case Nil
  then show ?case by simp
next
  case (Cons s ss)
  show ?case
  proof (cases i)
    case 0
    with Cons.prems show ?thesis by simp
  next
    case (Suc i')
    with Cons.prems have no: "\<not> step_matches s a r" by auto
    from Suc Cons.prems have "i' < length ss" "step_matches (ss ! i') a r"
      "\<forall>j<i'. \<not> step_matches (ss ! j) a r" by auto
    from Cons.IH[OF this, of "k + 1"] no Suc show ?thesis by simp
  qed
qed

section \<open>Lemmas on the calls of the reasoning collaborator\<close>

named_theorems keeps_intro

lemma keeps_ret [keeps_intro]: "grows f 0 (ret x)"
  by (simp add: grows_def ret_def)

lemma keeps_throw [keeps_intro]: "grows f 0 (throw e)"
  by (simp add: grows_def throw_def)

lemma keeps_lift [keeps_intro]: "grows f 0 (lift r)"
  by (simp add: grows_def lift_def)

lemma grows_bind:
  assumes "grows f a m" and "\<And>x. grows f b (g x)"
  shows "grows f (a + b) (io_bind m g)"
  unfolding grows_def
proof
  fix w
  obtain r w1 where m: "m w = (r, w1)" by (cases "m w")
  from assms(1) m have 1: "f w1 \<le> f w + a" by (auto simp: grows_def dest: spec[of _ w])
  show "f (snd (io_bind m g w)) \<le> f w + (a + b)"
  proof (cases r)
    case (Inl e)
    with m 1 show ?thesis by (simp add: io_bind_def)
  next
    case (Inr x)
    from assms(2)[of x] have "f (snd (g x w1)) \<le> f w1 + b" by (simp add: grows_def)
    with m 1 Inr show ?thesis by (simp add: io_bind_def)
  qed
qed

lemma keeps_bind [keeps_intro]:
  "grows f 0 m \<Longrightarrow> (\<And>x. grows f 0 (g x)) \<Longrightarrow> grows f 0 (io_bind m g)"
  using grows_bind[of f 0 m 0 g] by simp

lemma grows_try:
  assumes "grows f a m" and "\<And>e. grows f b (h e)"
  shows "grows f (a + b) (try_catch m h)"
  unfolding grows_def
proof
  fix w
  obtain r w1 where m: "m w = (r, w1)" by (cases "m w")
  from assms(1) m have 1: "f w1 \<le> f w + a" by (auto simp: grows_def dest: spec[of _ w])
  show "f (snd (try_catch m h w)) \<le> f w + (a + b)"
  proof (cases r)
    case (Inr x)
    with m 1 show ?thesis by (simp add: try_catch_def)
  next
    case (Inl e)
    from assms(2)[of e] have "f (snd (h e w1)) \<le> f w1 + b" by (simp add: grows_def)
    with m 1 Inl show ?thesis by (simp add: try_catch_def)
  qed
qed

lemma keeps_try [keeps_intro]:
  "grows f 0 m \<Longrightarrow> (\<And>e. grows f 0 (h e)) \<Longrightarrow> grows f 0 (try_catch m h)"
  using grows_try[of f 0 m 0 h] by simp

lemma grows_mono: "grows f a m \<Longrightarrow> a \<le> b \<Longrightarrow> grows f b m"
  by (fastforce simp: grows_def intro: order_trans)

lemma keeps_if [keeps_intro]:
  "(c \<Longrightarrow> grows f k a) \<Longrightarrow> (\<not> c \<Longrightarrow> grows f k b) \<Longrightarrow> grows f k (if c then a else b)"
  by simp

lemma keeps_case_option [keeps_intro]:
  "grows f k a \<Longrightarrow> (\<And>x. grows f k (g x)) \<Longrightarrow> grows f k (case v of None \<Rightarrow> a | Some x \<Rightarrow> g x)"
  by (cases v) simp_all

lemma keeps_case_prod [keeps_intro]:
  "(\<And>a b. grows f k (g a b)) \<Longrightarrow> grows f k (case_prod g p)"
  by (cases p) simp

lemma keeps_for_each [keeps_intro]:
  "(\<And>x. grows f 0 (g x)) \<Longrightarrow> grows f 0 (for_each xs g)"
  by (induction xs) (auto intro: keeps_intro)

lemma keeps_now_iso [keeps_intro]: "grows (log_count h) 0 (now_iso env)"
  by (simp add: grows_def now_iso_def log_count_def)

lemma keeps_loadMemory [keeps_intro]: "grows (log_count h) 0 loadMemory"
  by (simp add: grows_def loadMemory_run)

lemma keeps_saveMemory [keeps_intro]: "grows (log_count h) 0 (saveMemory env m)"
  by (simp add: grows_def saveMemory_def log_count_def)

lemma keeps_loadNotes [keeps_intro]: "grows (log_count h) 0 (loadNotes env)"
  by (simp add: grows_def loadNotes_run log_count_def split: disk_file.splits)

lemma keeps_saveNotes [keeps_intro]: "grows (log_count h) 0 (saveNotes env c)"
  by (simp add: grows_def saveNotes_def log_count_def)

lemma keeps_querySummarize [keeps_intro]:
  "only_base h \<Longrightarrow> grows (log_count h) 0 (querySummarize env xs)"
  by (auto simp: grows_def querySummarize_def log_count_def only_base_def)

lemma keeps_runLandscapeAnalysis [keeps_intro]:
  "only_base h \<Longrightarrow> grows (log_count h) 0 (runLandscapeAnalysis env q c)"
  by (auto simp: grows_def runLandscapeAnalysis_def log_count_def Let_def only_base_def)

lemma keeps_createPlanSteps [keeps_intro]:
  "only_base h \<Longrightarrow> grows (log_count h) 0 (createPlanSteps env q l c)"
  by (auto simp: grows_def createPlanSteps_def log_count_def Let_def only_base_def)

lemma keeps_callApproval [keeps_intro]: "grows (log_count h) 0 (callApproval cb c r)"
  by (simp add: grows_def callApproval_def log_count_def split: option.splits)

lemma keeps_runCommand [keeps_intro]: "grows (log_count h) 0 (runCommand env c)"
  by (simp add: grows_def runCommand_def log_count_def)

lemma keeps_notify [keeps_intro]: "grows (log_count h) 0 (notify r)"
  by (simp add: grows_def notify_def ret_def throw_def split: option.splits)

lemma grows_queryBaseAgent: "grows (log_count h) 1 (queryBaseAgent env q c)"
  by (simp add: grows_def queryBaseAgent_def log_count_def)


lemma keeps_summarizeAndShift [keeps_intro]:
  assumes "only_base h"
  shows "grows (log_count h) 0 (summarizeAndShift env m)"
  unfolding summarizeAndShift_def Let_def by (intro keeps_intro assms)

lemma keeps_addInteraction [keeps_intro]:
  assumes "only_base h"
  shows "grows (log_count h) 0 (addInteraction env rq rs)"
  unfolding addInteraction_def Let_def by (intro keeps_intro assms)

lemma keeps_getMemoryContextString [keeps_intro]: "grows (log_count h) 0 getMemoryContextString"
  unfolding getMemoryContextString_def Let_def by (intro keeps_intro)

lemma keeps_updateCurrentTask [keeps_intro]: "grows (log_count h) 0 (updateCurrentTask env t)"
  unfolding updateCurrentTask_def Let_def by (intro keeps_intro)

lemma keeps_setPlan [keeps_intro]: "grows (log_count h) 0 (setPlan env ss)"
  unfolding setPlan_def Let_def by (intro keeps_intro)

lemma keeps_completeStep [keeps_intro]: "grows (log_count h) 0 (completeStep env k)"
  unfolding completeStep_def Let_def by (intro keeps_intro)

lemma keeps_addContext [keeps_intro]: "grows (log_count h) 0 (addContext env c)"
  unfolding addContext_def Let_def by (intro keeps_intro)

lemma keeps_addCompleted [keeps_intro]: "grows (log_count h) 0 (addCompleted env c)"
  unfolding addCompleted_def Let_def by (intro keeps_intro)

lemma keeps_addBlocker [keeps_intro]: "grows (log_count h) 0 (addBlocker env c)"
  unfolding addBlocker_def Let_def by (intro keeps_intro)

lemma keeps_tryCompleteFrom [keeps_intro]: "grows (log_count h) 0 (tryCompleteFrom env k ss a r)"
  by (induction ss arbitrary: k) (auto intro!: keeps_intro)

lemma keeps_tryCompleteMatchingStep [keeps_intro]:
  "grows (log_count h) 0 (tryCompleteMatchingStep env ss a r)"
  unfolding tryCompleteMatchingStep_def by (intro keeps_intro)

lemma keeps_handleTerminalCommand [keeps_intro]:
  "grows (log_count h) 0 (handleTerminalCommand env r cb)"
  unfolding handleTerminalCommand_def by (intro keeps_intro)

lemma keeps_terminalBranch [keeps_intro]:
  "grows (log_count h) 0 (terminalBranch env opts plan r st)"
  unfolding terminalBranch_def Let_def by (intro keeps_intro)

lemma keeps_thinkingStep [keeps_intro]: "grows (log_count h) 0 (thinkingStep opts n)"
  unfolding thinkingStep_def by (intro keeps_intro)

lemma keeps_recordTurn [keeps_intro]:
  assumes "only_base h"
  shows "grows (log_count h) 0 (recordTurn env opts q plan r st)"
  unfolding recordTurn_def by (intro keeps_intro assms)

lemma grows_turn_log:
  assumes "only_base h"
  shows "grows (log_count h) 1 (turn env opts q plan st)"
proof -
  have "grows (log_count h) (0 + (1 + 0)) (turn env opts q plan st)"
    unfolding turn_def Let_def
    by (intro grows_bind grows_queryBaseAgent keeps_intro assms)
  then show ?thesis by simp
qed


lemma base_calls_log_count: "base_calls = log_count is_base_call"
  by (rule ext) (simp add: base_calls_def log_count_def)

lemma only_base_is_base_call: "only_base is_base_call"
  by (simp add: only_base_def)

lemma grows_turn: "grows base_calls 1 (turn env opts q plan st)"
  unfolding base_calls_log_count by (rule grows_turn_log) (rule only_base_is_base_call)

lemma terminalBranch_iteration:
  assumes "terminalBranch env opts plan r0 st w = (Inr (brk, r, st'), w')"
  shows "iteration st' = iteration st \<and> (brk \<longrightarrow> \<not> continueLoop st')"
  using assms
  by (auto simp: terminalBranch_def io_bind_def ret_def Let_def
      split: if_splits sum.splits prod.splits)

lemma turn_continue:
  assumes "turn env opts q plan st w = (Inr st', w')" and "continueLoop st'"
  shows "iteration st' = Suc (iteration st) \<and> iteration st' < MAX_CONTINUE_ITERATIONS"
  using assms
  by (auto simp: turn_def recordTurn_def io_bind_def ret_def Let_def
      split: if_splits sum.splits prod.splits dest!: terminalBranch_iteration)

lemma turn_iteration:
  assumes "turn env opts q plan st w = (Inr st', w')"
  shows "iteration st' = Suc (iteration st)"
  using assms
  by (auto simp: turn_def recordTurn_def io_bind_def ret_def Let_def
      split: if_splits sum.splits prod.splits dest!: terminalBranch_iteration)

lemma loop_calls:
  "base_calls (snd (loop env opts q plan st w)) \<le> base_calls w + max 1 (5 - iteration st)"
proof (induction env opts q plan st w rule: loop.induct)
  case (1 env opts q plan st w)
  obtain r w1 where t: "turn env opts q plan st w = (r, w1)"
    by (cases "turn env opts q plan st w")
  from grows_turn[of env opts q plan st] t have one: "base_calls w1 \<le> base_calls w + 1"
    by (auto simp: grows_def dest: spec[of _ w])
  show ?case
  proof (cases r)
    case (Inl e)
    with t one show ?thesis by (subst loop.simps) simp
  next
    case (Inr st')
    show ?thesis
    proof (cases "continueLoop st'")
      case False
      with t one Inr show ?thesis by (subst loop.simps) simp
    next
      case True
      from turn_continue[OF t[unfolded Inr] True]
      have it: "iteration st' = Suc (iteration st)" "iteration st' < 5"
        by (simp_all add: MAX_CONTINUE_ITERATIONS_def)
      from "1.IH"[OF t[symmetric] Inr True]
      have "base_calls (snd (loop env opts q plan st' w1)) \<le> base_calls w1 + max 1 (5 - iteration st')" .
      with one it have "base_calls (snd (loop env opts q plan st' w1)) \<le> base_calls w + max 1 (5 - iteration st)"
        by arith
      with t Inr True show ?thesis by (subst loop.simps) simp
    qed
  qed
qed

lemma grows_loop_start:
  "iteration st = 0 \<Longrightarrow> grows base_calls 5 (loop env opts q plan st)"
  using loop_calls[of env opts q plan st] by (simp add: grows_def)

lemma loop_iterations:
  "loop env opts q plan st w = (Inr st', w') \<Longrightarrow> iteration st < 5 \<Longrightarrow>
   iteration st < iteration st' \<and> iteration st' \<le> 5"
proof (induction env opts q plan st w rule: loop.induct)
  case (1 env opts q plan st w)
  obtain r w1 where t: "turn env opts q plan st w = (r, w1)"
    by (cases "turn env opts q plan st w")
  from "1.prems"(1) t obtain s1 where r: "r = Inr s1"
    by (subst (asm) loop.simps) (cases r; simp)
  from turn_iteration[OF t[unfolded r]] have it: "iteration s1 = Suc (iteration st)" .
  show ?case
  proof (cases "continueLoop s1")
    case False
    with "1.prems" t r have "st' = s1" by (subst (asm) loop.simps) simp
    with it "1.prems"(2) show ?thesis by simp
  next
    case True
    from turn_continue[OF t[unfolded r] True] have lt: "iteration s1 < 5"
      by (simp add: MAX_CONTINUE_ITERATIONS_def)
    from "1.prems"(1) t r True have "loop env opts q plan s1 w1 = (Inr st', w')"
      by (subst (asm) loop.simps) simp
    from "1.IH"[OF t[symmetric] r True this lt] it show ?thesis by simp
  qed
qed

lemma io_bind_InrD:
  "io_bind m f w = (Inr y, w') \<Longrightarrow> \<exists>x w1. m w = (Inr x, w1) \<and> f x w1 = (Inr y, w')"
  by (auto simp: io_bind_def split: sum.splits prod.splits)

lemma try_catch_InrD:
  assumes "try_catch m h w = (Inr y, w')" and "\<And>e v x. fst (h e v) \<noteq> Inr x"
  shows "m w = (Inr y, w')"
proof (cases "m w")
  case (Pair r w1)
  show ?thesis
  proof (cases r)
    case (Inl e)
    with Pair assms(1) have "h e w1 = (Inr y, w')" by (simp add: try_catch_def)
    with assms(2)[of e w1 y] show ?thesis by simp
  next
    case (Inr x)
    with Pair assms(1) show ?thesis by (simp add: try_catch_def)
  qed
qed

lemma orchestrate_returns:
  assumes "orchestrate env q opts w = (Inr res, w')"
  shows "\<exists>plan st0 w0 st. iteration st0 = 0 \<and> loop env opts q plan st0 w0 = (Inr st, w') \<and>
           iterations res = iteration st \<and> res_responses res = responses st"
proof -
  have handler: "fst (io_bind (addBlocker env b) (\<lambda>_. throw e) v) \<noteq> Inr x" for b e v x
    by (simp add: io_bind_def throw_def split: sum.splits prod.splits)
  show ?thesis
    apply (insert assms[unfolded orchestrate_def])
    apply (drule try_catch_InrD)
     apply (rule handler)
    apply (drule io_bind_InrD, elim exE conjE)
    apply (drule io_bind_InrD, elim exE conjE)
    apply (drule io_bind_InrD, elim exE conjE)
    apply (simp only: Let_def split: prod.splits)
    apply (drule io_bind_InrD, elim exE conjE)
    apply (simp only: ret_def prod.inject sum.inject)
    apply (elim conjE)
    apply (rule exI)+
    apply (intro conjI)
       prefer 2
       apply assumption
      apply auto
    done
qed

section \<open>Lemmas on one pass of the loop\<close>


lemma addBlocker_unit: "addBlocker env b v = (Inr x, v') \<Longrightarrow> addBlocker env b v = (Inr (), v')"
  by simp















section \<open>The rolling window of the memory system\<close>

text \<open>
  Claim C3. Starting from an empty memory, after any \<open>N \<le> 21\<close> calls of
  \<open>addInteraction\<close> the active list holds exactly \<open>N\<close> records with the ids
  \<open>1..N\<close>, there is no summary and the summarizer was not called. The 22nd call asks
  the summarizer exactly once, for the interactions with the ids \<open>2..22\<close>, and
  leaves exactly 21 active records with the ids \<open>2..22\<close>; the one summary it stores
  (when the summarizer answers) covers \<open>2..22\<close>.
\<close>

theorem rolling_window_first_22:
  assumes wr: "memory_writable env" and start: "loadMemory w = (Inr emptyMemory, w)"
  shows "(length xs \<le> 21 \<longrightarrow>
           (\<exists>w' m. add_all env xs w = (Inr (), w') \<and> loadMemory w' = (Inr m, w') \<and>
              length (interactions m) = length xs \<and>
              map id_of (interactions m) = [1 ..< Suc (length xs)] \<and>
              summaries m = [] \<and> llm_log w' = llm_log w)) \<and>
         (length xs = 22 \<longrightarrow>
           (\<exists>w' m ts. add_all env xs w = (Inr (), w') \<and> loadMemory w' = (Inr m, w') \<and>
              length (interactions m) = 21 \<and>
              map id_of (interactions m) = [2 ..< 23] \<and>
              llm_log w' = llm_log w @ [SummarizeCall ts] \<and> map id_of ts = [2 ..< 23] \<and>
              (case summarizeAgent env (length (llm_log w)) ts of
                 Inl e \<Rightarrow> summaries m = []
               | Inr r \<Rightarrow> map covered (summaries m) = [(2, 22)])))"
proof (intro conjI impI)
  from start have e: "stored_memory w = emptyMemory" by (simp add: loadMemory_run)
  then have w0: "window 0 w" by (rule window_empty)
  {
    assume len: "length xs \<le> 21"
    from add_all_window[OF wr w0, of xs] len obtain w' where
      run: "add_all env xs w = (Inr (), w')" and win: "window (length xs) w'"
      and log: "llm_log w' = llm_log w" and sums: "summaries (stored_memory w') = summaries (stored_memory w)"
      by auto
    have ids: "map id_of (interactions (stored_memory w')) = [1 ..< Suc (length xs)]"
      using win len by (simp add: window_def window_ids_def)
    then have "length (map id_of (interactions (stored_memory w'))) = length xs"
      by (simp del: upt_Suc)
    then have "length (interactions (stored_memory w')) = length xs" by simp
    with run ids log sums e
    show "\<exists>w' m. add_all env xs w = (Inr (), w') \<and> loadMemory w' = (Inr m, w') \<and>
              length (interactions m) = length xs \<and>
              map id_of (interactions m) = [1 ..< Suc (length xs)] \<and>
              summaries m = [] \<and> llm_log w' = llm_log w"
      by (simp add: loadMemory_run emptyMemory_def)
  }
  {
    assume len: "length xs = 22"
    then obtain ys y where xs: "xs = ys @ [y]" and ly: "length ys = 21"
      by (cases xs rule: rev_cases) auto
    from add_all_window[OF wr w0, of ys] ly obtain w1 where
      run1: "add_all env ys w = (Inr (), w1)" and win1: "window 21 w1"
      and log1: "llm_log w1 = llm_log w" and sums1: "summaries (stored_memory w1) = summaries (stored_memory w)"
      by auto
    have A: "(21::nat) - 19 = 2" "(21::nat) + 2 = 23" "Suc 21 = 22" "(21::nat) \<le> 21"
      by simp_all
    from addInteraction_step[OF wr win1, of "fst y" "snd y", unfolded A]
    obtain i w' where
      run2: "addInteraction env (fst y) (snd y) w1 = (Inr i, w')" and win2: "window 22 w'"
      and big: "True \<longrightarrow> (\<exists>ts. llm_log w' = llm_log w1 @ [SummarizeCall ts] \<and> map id_of ts = [2 ..< 23] \<and>
        (case summarizeAgent env (length (llm_log w1)) ts of
           Inl e \<Rightarrow> summaries (stored_memory w') = summaries (stored_memory w1)
         | Inr r \<Rightarrow> map covered (summaries (stored_memory w')) =
               (let l = map covered (summaries (stored_memory w1)) @ [(2, 22)]
                in if length l > 3 then drop 1 l else l)))"
      by blast
    then obtain ts where
      log2: "llm_log w' = llm_log w1 @ [SummarizeCall ts]" and ts: "map id_of ts = [2 ..< 23]"
      and sums2: "(case summarizeAgent env (length (llm_log w1)) ts of
           Inl e \<Rightarrow> summaries (stored_memory w') = summaries (stored_memory w1)
         | Inr r \<Rightarrow> map covered (summaries (stored_memory w')) =
               (let l = map covered (summaries (stored_memory w1)) @ [(2, 22)]
                in if length l > 3 then drop 1 l else l))"
      by blast
    have run: "add_all env xs w = (Inr (), w')"
      using run1 run2 by (simp add: xs add_all_append io_bind_def ret_def)
    have "window_ids 22 = [2 ..< 23]"
      by code_simp
    with win2 have ids: "map id_of (interactions (stored_memory w')) = [2 ..< 23]"
      by (simp only: window_def)
    then have "length (map id_of (interactions (stored_memory w'))) = 21"
      by (simp del: upt_Suc upt_rec_numeral)
    then have l21: "length (interactions (stored_memory w')) = 21" by simp
    from sums2 sums1 e log1 have "(case summarizeAgent env (length (llm_log w)) ts of
                 Inl e \<Rightarrow> summaries (stored_memory w') = []
               | Inr r \<Rightarrow> map covered (summaries (stored_memory w')) = [(2, 22)])"
      by (simp add: emptyMemory_def split: sum.splits)
    with run ids l21 log2 log1 ts
    show "\<exists>w' m ts. add_all env xs w = (Inr (), w') \<and> loadMemory w' = (Inr m, w') \<and>
              length (interactions m) = 21 \<and>
              map id_of (interactions m) = [2 ..< 23] \<and>
              llm_log w' = llm_log w @ [SummarizeCall ts] \<and> map id_of ts = [2 ..< 23] \<and>
              (case summarizeAgent env (length (llm_log w)) ts of
                 Inl e \<Rightarrow> summaries m = []
               | Inr r \<Rightarrow> map covered (summaries m) = [(2, 22)])"
      by (simp add: loadMemory_run)
  }
qed

theorem rolling_window_first_22_witness:
  "memory_writable sample_env \<and>
   loadMemory empty_world = (Inr emptyMemory, empty_world) \<and>
   (\<exists>w' m. add_all sample_env (replicate 3 (\<lparr>query = ''hello'', context_of = None\<rparr>, plain_response))
              empty_world = (Inr (), w') \<and>
      loadMemory w' = (Inr m, w') \<and> length (interactions m) = 3 \<and>
      map id_of (interactions m) = [1 ..< 4] \<and>
      summaries m = [] \<and> llm_log w' = []) \<and>
   (\<exists>w' m ts. add_all sample_env (replicate 22 (\<lparr>query = ''hello'', context_of = None\<rparr>, plain_response))
              empty_world = (Inr (), w') \<and>
      loadMemory w' = (Inr m, w') \<and> length (interactions m) = 21 \<and>
      map id_of (interactions m) = [2 ..< 23] \<and>
      llm_log w' = [SummarizeCall ts] \<and> map id_of ts = [2 ..< 23] \<and>
      map covered (summaries m) = [(2, 22)])"
proof -
  have wr: "memory_writable sample_env"
    by (simp add: sample_env_def)
  have start: "loadMemory empty_world = (Inr emptyMemory, empty_world)"
    by (simp add: loadMemory_run stored_memory_def empty_world_def)
  have ok: "summarizeAgent sample_env n ts = Inr \<lparr>sr_summary = ''recap'', sr_reasoning = ''kept facts''\<rparr>"
    for n ts
    by (simp add: sample_env_def)
  have log: "llm_log empty_world = []"
    by (simp add: empty_world_def)
  from rolling_window_first_22 [OF wr start,
      of "replicate 3 (\<lparr>query = ''hello'', context_of = None\<rparr>, plain_response)"]
  have three: "\<exists>w' m. add_all sample_env (replicate 3 (\<lparr>query = ''hello'', context_of = None\<rparr>, plain_response))
              empty_world = (Inr (), w') \<and>
      loadMemory w' = (Inr m, w') \<and> length (interactions m) = 3 \<and>
      map id_of (interactions m) = [1 ..< 4] \<and>
      summaries m = [] \<and> llm_log w' = []"
    by (simp add: log del: upt_Suc upt_rec_numeral)
  from rolling_window_first_22 [OF wr start,
      of "replicate 22 (\<lparr>query = ''hello'', context_of = None\<rparr>, plain_response)"]
  have full: "\<exists>w' m ts. add_all sample_env (replicate 22 (\<lparr>query = ''hello'', context_of = None\<rparr>, plain_response))
              empty_world = (Inr (), w') \<and>
      loadMemory w' = (Inr m, w') \<and> length (interactions m) = 21 \<and>
      map id_of (interactions m) = [2 ..< 23] \<and>
      llm_log w' = [SummarizeCall ts] \<and> map id_of ts = [2 ..< 23] \<and>
      map covered (summaries m) = [(2, 22)]"
    by (simp add: log ok del: upt_Suc upt_rec_numeral)
  from wr start three full show ?thesis
    by blast
qed

section \<open>The ranges of the stored summaries\<close>

text \<open>
  Claim C4. The claim asks that the id ranges of the stored summaries be contiguous and
  do not overlap. Once the window is full every call of \<open>addInteraction\<close> summarizes
  again, so the ranges of two successive summaries differ by one id only: after 23
  additions to an empty memory, with every summarization succeeding, the two stored
  summaries cover \<open>2..22\<close> and \<open>3..23\<close>.
\<close>

theorem summaries_after_23_overlap:
  assumes wr: "memory_writable env"
    and ok: "\<And>k ts. \<exists>r. summarizeAgent env k ts = Inr r"
    and start: "loadMemory w = (Inr emptyMemory, w)"
    and len: "length xs = 23"
  shows "\<exists>w' m. add_all env xs w = (Inr (), w') \<and> loadMemory w' = (Inr m, w') \<and>
           map covered (summaries m) = [(2, 22), (3, 23)]"
proof -
  from start have e: "stored_memory w = emptyMemory" by (simp add: loadMemory_run)
  then have w0: "window 0 w" by (rule window_empty)
  have s0: "map covered (summaries (stored_memory w)) = summary_spans 0"
    by (simp add: e emptyMemory_def summary_spans_small)
  from add_all_spans[OF wr ok w0 s0, of xs] len obtain w' where
    run: "add_all env xs w = (Inr (), w')"
    and sp: "map covered (summaries (stored_memory w')) = summary_spans 23"
    by auto
  have "summary_spans 23 = [(2, 22), (3, 23)]" by code_simp
  with run sp show ?thesis by (simp add: loadMemory_run)
qed

theorem summaries_after_23_overlap_witness:
  "memory_writable sample_env \<and>
   (\<forall>k ts. \<exists>r. summarizeAgent sample_env k ts = Inr r) \<and>
   loadMemory empty_world = (Inr emptyMemory, empty_world) \<and>
   length (replicate 23 (\<lparr>query = ''hello'', context_of = None\<rparr>, plain_response)) = 23 \<and>
   (\<exists>w' m. add_all sample_env
              (replicate 23 (\<lparr>query = ''hello'', context_of = None\<rparr>, plain_response))
              empty_world = (Inr (), w') \<and>
      loadMemory w' = (Inr m, w') \<and> map covered (summaries m) = [(2, 22), (3, 23)])"
proof -
  have wr: "memory_writable sample_env"
    by (simp add: sample_env_def)
  have ok: "\<exists>r. summarizeAgent sample_env k ts = Inr r" for k ts
    by (simp add: sample_env_def)
  have start: "loadMemory empty_world = (Inr emptyMemory, empty_world)"
    by (simp add: loadMemory_run stored_memory_def empty_world_def)
  have len: "length (replicate 23 (\<lparr>query = ''hello'', context_of = None\<rparr>, plain_response)) = 23"
    by simp
  from summaries_after_23_overlap [OF wr ok start len] wr ok start len show ?thesis
    by blast
qed

section \<open>Loading the stores\<close>



section \<open>A command without an approval callback\<close>

text \<open>
  Claim C5. The claim asks that a command that requires approval be treated as declined
  when no approval callback was supplied, exactly as when the callback returns false.
  \<open>handleTerminalCommand\<close> calls the callback without testing it: with no callback
  the call raises a TypeError and no declined outcome is returned, whereas a callback
  that returns false gives the declined outcome. In both cases nothing is executed.
\<close>

theorem absent_approval_raises:
  "handleTerminalCommand env (r\<lparr>requiresApproval := True\<rparr>) None w =
     (Inl (TypeError ''askApproval is not a function''), w) \<and>
   handleTerminalCommand env (r\<lparr>requiresApproval := True\<rparr>) (Some (\<lambda>n c x. Inr False)) w =
     (Inr \<lparr>executed = False, tr_output = ''User declined to execute command'',
           tr_exitCode = None, tr_error = None, approved = False\<rparr>,
      w\<lparr>approval_log := approval_log w @ [(terminalCommand r, commandReasoning r)]\<rparr>)"
  by (simp add: handleTerminalCommand_def callApproval_def io_bind_def ret_def)

text \<open>
  In \<open>orchestrate\<close> the TypeError reaches the \<open>catch\<close> block: it is recorded as an
  error blocker and raised again.
\<close>

lemma orchestrate_without_callback:
  "fst (orchestrate command_env ''tidy up'' simple_options fresh_world) =
     Inl (TypeError ''askApproval is not a function'')"
  by code_simp

lemma orchestrate_without_callback_notes:
  "notes_file (snd (orchestrate command_env ''tidy up'' simple_options fresh_world)) =
     Holds (''# Agent Notes\<newline>\<newline>## Current Task\<newline>None\<newline>\<newline>## Plan\<newline>No active plan\<newline>\<newline>## Context\<newline>- Session started: T\<newline>\<newline>## Completed\<newline>- Nothing yet\<newline>\<newline>## Blockers\<newline>- [T0] Error: askApproval is not a function\<newline>None\<newline>'')"
  by code_simp

section \<open>A write that is interrupted\<close>

text \<open>
  Claim C9. The claim asks that a write that fails midway leave the previous document
  readable. Both stores write the real file in place: when the write is cut short
  right after the file was opened, the notes read back empty and the memory reads back
  as the empty memory, whatever was stored before.
\<close>

theorem interrupted_write_loses_document:
  "fst (loadNotes env (saveNotes_interrupted 0 new (w\<lparr>notes_file := Holds old\<rparr>))) = Inr [] \<and>
   fst (loadMemory (saveMemory_interrupted m (w\<lparr>memory_file := Holds (Json old_memory)\<rparr>))) =
     Inr \<lparr>interactions = [], summaries = [], count = 0\<rparr>"
  by (simp add: loadNotes_run loadMemory_run saveNotes_interrupted_def saveMemory_interrupted_def
      stored_memory_def emptyMemory_def)

section \<open>The lengths of the rendered fields\<close>

text \<open>
  Claim C8. The claim asks for a cap of 200 characters on a rendered query, of 300 on a
  rendered response content and of 500 on a summary text. For a memory with a summary
  of 600 characters and an interaction whose query and response have 250 characters,
  \<open>getMemoryContextString\<close> renders the summary and the query in full and cuts the
  response at 200 characters, not 300.
\<close>

theorem context_string_not_capped:
  "getMemoryContextString long_world =
     (Inr (''=== CONVERSATION HISTORY (SUMMARIES) ===\<newline>\<newline>'' @
           ''Summary 1 (Interactions 2-22, T0 to T1):\<newline>'' @ replicate 600 (CHR ''s'') @ ''\<newline>\<newline>'' @
           ''=== RECENT INTERACTIONS (Last ${memory.interactions.length}) ===\<newline>\<newline>'' @
           ''[T1] Interaction 23:\<newline>'' @
           ''User Query: '' @ replicate 250 (CHR ''q'') @ ''\<newline>'' @
           ''AI Response Type: response\<newline>'' @
           ''AI Content: '' @ replicate 200 (CHR ''r'') @ ''...''),
      long_world)"
  by code_simp

section \<open>The plan-step matcher\<close>

text \<open>
  Claim C6, as amended. \<open>tryCompleteMatchingStep\<close> looks at every step of the plan in
  the original order, whether or not its box is already checked. A step matches when at
  least 2 of the words of its lower-cased description that are longer than 4 characters
  (split at white space, counted with repetition) occur as substrings of the lower-cased
  action text followed by a space and the rationale. If no step matches nothing is done;
  otherwise \<open>completeStep\<close> is called for the first matching step and an audit line
  is added to the context section, and no other step is touched.
\<close>

theorem matcher_completes_first_match:
  "(list_all (\<lambda>s. \<not> step_matches s a r) ss \<longrightarrow> tryCompleteMatchingStep env ss a r = ret ()) \<and>
   (i < length ss \<and> step_matches (ss ! i) a r \<and> (\<forall>j<i. \<not> step_matches (ss ! j) a r) \<longrightarrow>
      tryCompleteMatchingStep env ss a r =
        io_bind (completeStep env (i + 1)) (\<lambda>_.
          addContext env
            (''Auto-completed step '' @ show_nat (i + 1) @ '': '' @ stepDescription (ss ! i))))"
  using tryCompleteFrom_none [of a r ss env 0] tryCompleteFrom_first [of i ss a r env 0]
  by (simp add: tryCompleteMatchingStep_def)

theorem matcher_completes_first_match_witness:
  "list_all (\<lambda>s. \<not> step_matches s ''hello'' []) two_steps \<and>
   tryCompleteMatchingStep sample_env two_steps ''hello'' [] = ret () \<and>
   0 < length two_steps \<and>
   step_matches (two_steps ! 0) ''update server configuration'' [] \<and>
   tryCompleteMatchingStep sample_env two_steps ''update server configuration'' [] =
     io_bind (completeStep sample_env 1) (\<lambda>_.
       addContext sample_env ''Auto-completed step 1: Update server configuration'')"
proof -
  have none: "list_all (\<lambda>s. \<not> step_matches s ''hello'' []) two_steps"
    by code_simp
  have len: "0 < length two_steps"
    by (simp add: two_steps_def)
  have first: "step_matches (two_steps ! 0) ''update server configuration'' []"
    by code_simp
  have one: "show_nat (Suc 0) = ''1''"
    by (simp add: show_nat.simps digit_char_def)
  have descr: "stepDescription (two_steps ! 0) = ''Update server configuration''"
    by (simp add: two_steps_def)
  from matcher_completes_first_match [of "''hello''" "[]" two_steps sample_env 0] none
  have a: "tryCompleteMatchingStep sample_env two_steps ''hello'' [] = ret ()"
    by simp
  from matcher_completes_first_match
    [of "''update server configuration''" "[]" two_steps sample_env 0] len first
  have b: "tryCompleteMatchingStep sample_env two_steps ''update server configuration'' [] =
     io_bind (completeStep sample_env 1) (\<lambda>_.
       addContext sample_env ''Auto-completed step 1: Update server configuration'')"
    by (simp add: one descr)
  from none a len first b show ?thesis
    by blast
qed

text \<open>
  The claim as stated fails: with step 1 already checked and both steps matching, the
  matcher picks step 1 again, adds an audit line for it and leaves step 2, the first
  uncompleted match, unchecked.
\<close>

theorem matcher_ignores_completion_counterexample:
  "fst (io_bind (setPlan sample_env two_steps) (\<lambda>_. completeStep sample_env 1) fresh_world) =
     Inr first_done_notes \<and>
   step_matches (two_steps ! 1) ''update server configuration'' [] \<and>
   notes_file (snd (tryCompleteMatchingStep sample_env two_steps
                      ''update server configuration'' [] first_done_world)) =
     Holds ''# Agent Notes\<newline>\<newline>## Current Task\<newline>None\<newline>\<newline>## Plan\<newline>- [x] 1. Update server configuration\<newline>- [ ] 2. Update server configuration again\<newline>\<newline>## Context\<newline>- [T0] Auto-completed step 1: Update server configuration\<newline>- Session started: T\<newline>\<newline>## Completed\<newline>- Nothing yet\<newline>\<newline>## Blockers\<newline>None\<newline>''"
  by code_simp

text \<open>A word of the description matches as a substring, and a repeated word counts twice.\<close>

lemma matcher_counts_substrings:
  "step_matches \<lparr>stepDescription = ''check tests'', reasoning = []\<rparr> ''unchecked contests'' [] \<and>
   step_matches \<lparr>stepDescription = ''deploy deploy'', reasoning = []\<rparr> ''deploy'' []"
  by code_simp

section \<open>The bound on the turns\<close>

text \<open>
  Claim C1. For every invocation of \<open>orchestrate\<close>, whatever the collaborators answer
  and whether it returns or raises, the reasoning collaborator is asked for a turn at
  most 5 times; when \<open>orchestrate\<close> returns, its iteration count is between 1 and 5.
\<close>

theorem turn_calls_bounded:
  "base_calls (snd (orchestrate env q opts w)) \<le> base_calls w + 5 \<and>
   (\<forall>res w'. orchestrate env q opts w = (Inr res, w') \<longrightarrow>
      1 \<le> iterations res \<and> iterations res \<le> 5)"
proof
  have "grows (log_count is_base_call) (0 + (0 + (0 + (5 + 0))) + 0) (orchestrate env q opts)"
    unfolding orchestrate_def Let_def
    by (intro grows_try grows_bind keeps_case_prod grows_loop_start [unfolded base_calls_log_count]
          keeps_intro only_base_is_base_call) simp
  then show "base_calls (snd (orchestrate env q opts w)) \<le> base_calls w + 5"
    by (simp add: grows_def base_calls_log_count)
next
  show "\<forall>res w'. orchestrate env q opts w = (Inr res, w') \<longrightarrow>
      1 \<le> iterations res \<and> iterations res \<le> 5"
  proof (intro allI impI)
    fix res w'
    assume o: "orchestrate env q opts w = (Inr res, w')"
    from orchestrate_returns[OF o] obtain plan st0 w0 st where
      "iteration st0 = 0" "loop env opts q plan st0 w0 = (Inr st, w')"
      "iterations res = iteration st"
      by blast
    with loop_iterations[of env opts q plan st0 w0 st w']
    show "1 \<le> iterations res \<and> iterations res \<le> 5"
      by simp
  qed
qed

theorem turn_calls_bounded_witness:
  "base_calls (snd (orchestrate code_env ''build it'' simple_options fresh_world))
     \<le> base_calls fresh_world + 5 \<and>
   (\<exists>res w'. orchestrate code_env ''build it'' simple_options fresh_world = (Inr res, w') \<and>
      1 \<le> iterations res \<and> iterations res \<le> 5)"
proof -
  have "fst (orchestrate code_env ''build it'' simple_options fresh_world) =
        Inr (projr (fst (orchestrate code_env ''build it'' simple_options fresh_world)))"
    by code_simp
  then obtain res w' where
    run: "orchestrate code_env ''build it'' simple_options fresh_world = (Inr res, w')"
    by (metis prod.collapse)
  from turn_calls_bounded [of code_env "''build it''" simple_options fresh_world] run
  show ?thesis
    by blast
qed

text \<open>The bound is reached when every turn asks to continue.\<close>

lemma five_turns_reached:
  "base_calls (snd (orchestrate code_env ''build it'' simple_options fresh_world)) = 5"
  by code_simp

section \<open>The denial counter\<close>



text \<open>After the second decline the notes hold both declines and the terminal blocker.\<close>

lemma second_decline_notes:
  "notes_file (snd second_decline) =
     Holds ''# Agent Notes\<newline>\<newline>## Current Task\<newline>None\<newline>\<newline>## Plan\<newline>No active plan\<newline>\<newline>## Context\<newline>- Session started: T\<newline>\<newline>## Completed\<newline>- Nothing yet\<newline>\<newline>## Blockers\<newline>- [T3] Too many command denials - stopping iteration\<newline>- [T2] Command declined: rm -rf /tmp\<newline>- [T0] Command declined: rm -rf /tmp\<newline>None\<newline>''"
  by code_simp

section \<open>The context handed to the reasoning collaborator\<close>




end
